theory Spec2Isabelle
  imports Complex_Main
begin

section \<open>Data model\<close>

text \<open>
  The regressor of \<^verbatim>\<open>Lab_2_4_LR2.py\<close> works on numpy arrays of floating point numbers.
  The embedding computes in exact arithmetic: an array entry is a \<^typ>\<open>real\<close>, a
  one-dimensional array is a list, a two-dimensional array is the list of its rows.
  A list of rows carries no column count when it has no row, so the statements that depend on
  the shape of the data are made for arrays with at least one row.
\<close>

type_synonym vec = "real list"
type_synonym mat = "real list list"

datatype ndarray = Arr1 vec | Arr2 mat

text \<open>
  The exceptions that the code and the numpy operations it calls can raise. A
  \<open>ValueError\<close> keeps its message, which tells the regressor's own two errors from
  numpy's shape errors.
\<close>

datatype py_error =
    ValueError string
  | ZeroDivisionError
  | LinAlgError
  | IndexError
  | TypeError

text \<open>The object state: both attributes are \<open>None\<close> after \<^verbatim>\<open>__init__\<close>.\<close>

record LinearRegressor =
  coefficients :: "vec option"
  intercept :: "real option"

definition init :: LinearRegressor where
  "init = \<lparr>coefficients = None, intercept = None\<rparr>"

text \<open>The three lists that gradient descent returns: \<open>(mse_list, coefficients, intercepts)\<close>.\<close>

type_synonym history = "real list \<times> vec list \<times> real list"

section \<open>The numpy operations the code uses\<close>

text \<open>
  \<^verbatim>\<open>X.shape[1]\<close> of a two-dimensional array with at least one row; for the empty list of
  rows it is \<open>0\<close>.
\<close>

definition ncols :: "'a list list \<Rightarrow> nat" where
  "ncols X = (case X of [] \<Rightarrow> 0 | r # _ \<Rightarrow> length r)"

text \<open>
  Lines 42 and 43 of \<open>fit\<close>: a one-dimensional array (\<^verbatim>\<open>np.ndim(X) == 1\<close>) becomes
  one column by \<^verbatim>\<open>X.reshape(-1, 1)\<close>, a two-dimensional one stays.
\<close>

definition as_2d :: "ndarray \<Rightarrow> mat" where
  "as_2d X = (case X of Arr1 xs \<Rightarrow> map (\<lambda>x. [x]) xs | Arr2 rows \<Rightarrow> rows)"

text \<open>\<^verbatim>\<open>np.insert(X, 0, 1, axis=1)\<close>: a column of ones in front.\<close>

definition insert_ones :: "mat \<Rightarrow> mat" where
  "insert_ones X = map (\<lambda>r. 1 # r) X"

text \<open>\<^verbatim>\<open>X[:, 1:]\<close>.\<close>

definition drop_first_column :: "mat \<Rightarrow> mat" where
  "drop_first_column X = map (drop 1) X"

definition dot :: "vec \<Rightarrow> vec \<Rightarrow> real" where
  "dot xs ys = sum_list (map2 (*) xs ys)"

definition shapes_not_aligned :: py_error where
  "shapes_not_aligned = ValueError ''shapes not aligned''"

definition not_broadcastable :: py_error where
  "not_broadcastable = ValueError ''operands could not be broadcast together''"

text \<open>\<^verbatim>\<open>np.dot\<close> of a matrix and a vector, of a vector and a matrix, of two matrices.\<close>

definition np_dot_mv :: "mat \<Rightarrow> vec \<Rightarrow> py_error + vec" where
  "np_dot_mv A v =
     (if ncols A = length v then Inr (map (\<lambda>r. dot r v) A) else Inl shapes_not_aligned)"

definition np_dot_vm :: "vec \<Rightarrow> mat \<Rightarrow> py_error + vec" where
  "np_dot_vm v A =
     (if length v = length A then Inr (map (\<lambda>c. dot v c) (transpose A))
      else Inl shapes_not_aligned)"

definition np_dot_mm :: "mat \<Rightarrow> mat \<Rightarrow> py_error + mat" where
  "np_dot_mm A B =
     (if ncols A = length B then Inr (map (\<lambda>r. map (\<lambda>c. dot r c) (transpose B)) A)
      else Inl shapes_not_aligned)"

text \<open>
  An elementwise operation on two one-dimensional arrays, with numpy's broadcasting: equal
  lengths, or one operand of length one.
\<close>

definition np_broadcast :: "(real \<Rightarrow> real \<Rightarrow> real) \<Rightarrow> vec \<Rightarrow> vec \<Rightarrow> py_error + vec" where
  "np_broadcast f xs ys =
     (if length xs = length ys then Inr (map2 f xs ys)
      else if length ys = 1 then Inr (map (\<lambda>x. f x (hd ys)) xs)
      else if length xs = 1 then Inr (map (\<lambda>y. f (hd xs) y) ys)
      else Inl not_broadcastable)"

text \<open>The in-place \<^verbatim>\<open>a -= b\<close>: the result keeps the shape of \<open>a\<close>.\<close>

definition np_isub :: "vec \<Rightarrow> vec \<Rightarrow> py_error + vec" where
  "np_isub a b =
     (if length b = length a then Inr (map2 (-) a b)
      else if length b = 1 then Inr (map (\<lambda>x. x - hd b) a)
      else Inl not_broadcastable)"

section \<open>The regressor\<close>

text \<open>
  A method takes the object and returns its outcome together with the object as the call
  leaves it, also when it raises: Python does not undo assignments made before an exception.
  In \<open>predict\<close>, the case \<open>Arr1\<close> is the branch \<^verbatim>\<open>np.ndim(X) == 1\<close>.
\<close>

definition not_fitted :: py_error where
  "not_fitted = ValueError ''Model is not yet fitted''"

definition predict :: "ndarray \<Rightarrow> LinearRegressor \<Rightarrow> (py_error + vec) \<times> LinearRegressor" where
  "predict X self =
     (case (coefficients self, intercept self) of
        (Some c, Some b) \<Rightarrow>
          (case X of
             Arr1 xs \<Rightarrow>
               (case np_broadcast (*) c xs of
                  Inl e \<Rightarrow> (Inl e, self)
                | Inr p \<Rightarrow> (Inr (map (\<lambda>v. v + b) p), self))
           | Arr2 rows \<Rightarrow>
               (case np_dot_mv rows c of
                  Inl e \<Rightarrow> (Inl e, self)
                | Inr p \<Rightarrow> (Inr (map (\<lambda>v. v + b) p), self)))
      | _ \<Rightarrow> (Inl not_fitted, self))"

text \<open>
  \<^verbatim>\<open>np.linalg.inv\<close> is numpy's, not this repository's: \<open>fit_multiple\<close> takes it as the
  parameter \<open>linalg_inv\<close>. It returns a matrix or raises.
\<close>

definition fit_multiple ::
  "(mat \<Rightarrow> py_error + mat) \<Rightarrow> mat \<Rightarrow> vec \<Rightarrow> LinearRegressor \<Rightarrow> (py_error + unit) \<times> LinearRegressor" where
  "fit_multiple linalg_inv X y self =
     (case np_dot_mm (transpose X) X of
        Inl e \<Rightarrow> (Inl e, self)
      | Inr G \<Rightarrow>
     (case linalg_inv G of
        Inl e \<Rightarrow> (Inl e, self)
      | Inr w1 \<Rightarrow>
     (case np_dot_mm w1 (transpose X) of
        Inl e \<Rightarrow> (Inl e, self)
      | Inr w2 \<Rightarrow>
     (case np_dot_mv w2 y of
        Inl e \<Rightarrow> (Inl e, self)
      | Inr w \<Rightarrow>
     (case w of
        [] \<Rightarrow> (Inl IndexError, self)
      | w0 # ws \<Rightarrow> (Inr (), self\<lparr>intercept := Some w0, coefficients := Some ws\<rparr>))))))"

text \<open>
  One pass of the loop body of \<open>fit_gradient_descent\<close>, lines 107 to 125. It returns
  the exception, if one is raised, and the state at that moment. The report that line 116
  prints is output only and is left out; the remainder that guards it is not.
\<close>

fun gd_epoch ::
  "mat \<Rightarrow> vec \<Rightarrow> real \<Rightarrow> int \<Rightarrow> nat \<Rightarrow> int \<Rightarrow> LinearRegressor \<times> history
     \<Rightarrow> py_error option \<times> LinearRegressor \<times> history" where
  "gd_epoch X y learning_rate iterations m epoch (self, mse_list, coefs, intercepts) =
     (case fst (predict (Arr2 (drop_first_column X)) self) of
        Inl e \<Rightarrow> (Some e, self, mse_list, coefs, intercepts)
      | Inr predictions \<Rightarrow>
     (case np_broadcast (-) predictions y of
        Inl e \<Rightarrow> (Some e, self, mse_list, coefs, intercepts)
      | Inr error \<Rightarrow>
     (if m = 0 then (Some ZeroDivisionError, self, mse_list, coefs, intercepts)
      else
     (case np_dot_vm error X of
        Inl e \<Rightarrow> (Some e, self, mse_list, coefs, intercepts)
      | Inr g \<Rightarrow>
     (case map (\<lambda>v. 1 / real m * v) g of
        [] \<Rightarrow> (Some IndexError, self, mse_list, coefs, intercepts)
      | g0 # gs \<Rightarrow>
     (case intercept self of
        None \<Rightarrow> (Some TypeError, self, mse_list, coefs, intercepts)
      | Some b \<Rightarrow>
     (case coefficients self of
        None \<Rightarrow>
          (Some TypeError, self\<lparr>intercept := Some (b - learning_rate * g0)\<rparr>,
           mse_list, coefs, intercepts)
      | Some c \<Rightarrow>
     (case np_isub c (map (\<lambda>v. learning_rate * v) gs) of
        Inl e \<Rightarrow>
          (Some e, self\<lparr>intercept := Some (b - learning_rate * g0)\<rparr>,
           mse_list, coefs, intercepts)
      | Inr c' \<Rightarrow>
     (if iterations div 10 = 0 then
        (Some ZeroDivisionError,
         self\<lparr>intercept := Some (b - learning_rate * g0), coefficients := Some c'\<rparr>,
         mse_list, coefs, intercepts)
      else if iterations div 100 = 0 then
        (Some ZeroDivisionError,
         self\<lparr>intercept := Some (b - learning_rate * g0), coefficients := Some c'\<rparr>,
         mse_list, coefs, intercepts)
      else if epoch mod (iterations div 100) = 0 \<and> iterations > 1000 then
        (None,
         self\<lparr>intercept := Some (b - learning_rate * g0), coefficients := Some c'\<rparr>,
         mse_list @ [1 / real m * sum_list (map (\<lambda>e. e ^ 2) error)],
         coefs @ [c'],
         intercepts @ [b - learning_rate * g0])
      else
        (None,
         self\<lparr>intercept := Some (b - learning_rate * g0), coefficients := Some c'\<rparr>,
         mse_list @ [1 / real m * sum_list (map (\<lambda>e. e ^ 2) error)],
         coefs @ [c'],
         intercepts @ [b - learning_rate * g0])
     )))))))))"

text \<open>The \<^verbatim>\<open>for epoch in range(iterations)\<close> loop: it stops at the first exception.\<close>

fun gd_loop ::
  "mat \<Rightarrow> vec \<Rightarrow> real \<Rightarrow> int \<Rightarrow> nat \<Rightarrow> int list \<Rightarrow> LinearRegressor \<times> history
     \<Rightarrow> py_error option \<times> LinearRegressor \<times> history" where
  "gd_loop X y learning_rate iterations m [] st = (None, st)"
| "gd_loop X y learning_rate iterations m (epoch # epochs) st =
     (case gd_epoch X y learning_rate iterations m epoch st of
        (Some e, st') \<Rightarrow> (Some e, st')
      | (None, st') \<Rightarrow> gd_loop X y learning_rate iterations m epochs st')"

text \<open>\<^verbatim>\<open>range(iterations)\<close>: empty when \<open>iterations \<le> 0\<close>.\<close>

definition py_range :: "int \<Rightarrow> int list" where
  "py_range n = map int [0..<nat n]"

text \<open>
  \<^verbatim>\<open>np.random.rand\<close> draws from numpy's global generator: \<open>rand\<close> is the stream of its
  draws, the first \<open>n\<close> of them for \<^verbatim>\<open>np.random.rand(n)\<close> and the next one for
  \<^verbatim>\<open>np.random.rand()\<close>. The array \<open>X\<close> comes from \<open>fit\<close> with its bias column, so
  \<^verbatim>\<open>X.shape[1] - 1\<close> is the number of features; on an array without any column line 98
  raises, a call that \<open>fit\<close> never makes and that the subtraction on natural numbers below
  does not show.
\<close>

definition fit_gradient_descent ::
  "(nat \<Rightarrow> real) \<Rightarrow> mat \<Rightarrow> vec \<Rightarrow> real \<Rightarrow> int \<Rightarrow> LinearRegressor
     \<Rightarrow> (py_error + history) \<times> LinearRegressor" where
  "fit_gradient_descent rand X y learning_rate iterations self =
     (let m = length y;
          n = ncols X - 1;
          self1 = self\<lparr>coefficients := Some (map (\<lambda>i. rand i * 0.01) [0..<n])\<rparr>;
          self2 = self1\<lparr>intercept := Some (rand n * 0.01)\<rparr>
      in (case gd_loop X y learning_rate iterations m (py_range iterations) (self2, [], [], []) of
            (Some e, self', h) \<Rightarrow> (Inl e, self')
          | (None, self', h) \<Rightarrow> (Inr h, self')))"

definition method_not_available :: "string \<Rightarrow> py_error" where
  "method_not_available method =
     ValueError (''Method '' @ method @ '' not available for training linear regression.'')"

text \<open>
  \<open>fit\<close> returns \<open>None\<close> on the least-squares path and the three histories on the
  gradient-descent path.
\<close>

definition fit ::
  "(mat \<Rightarrow> py_error + mat) \<Rightarrow> (nat \<Rightarrow> real) \<Rightarrow> ndarray \<Rightarrow> vec \<Rightarrow> string \<Rightarrow> real \<Rightarrow> int
     \<Rightarrow> LinearRegressor \<Rightarrow> (py_error + history option) \<times> LinearRegressor" where
  "fit linalg_inv rand X y method learning_rate iterations self =
     (if method \<notin> set [''least_squares'', ''gradient_descent''] then
        (Inl (method_not_available method), self)
      else
        (let X_with_bias = insert_ones (as_2d X)
         in if method = ''least_squares'' then
              (case fit_multiple linalg_inv X_with_bias y self of
                 (Inl e, self') \<Rightarrow> (Inl e, self')
               | (Inr u, self') \<Rightarrow> (Inr None, self'))
            else if method = ''gradient_descent'' then
              (case fit_gradient_descent rand X_with_bias y learning_rate iterations self of
                 (Inl e, self') \<Rightarrow> (Inl e, self')
               | (Inr h, self') \<Rightarrow> (Inr (Some h), self'))
            else (Inr None, self)))"

section \<open>One-hot encoding\<close>

text \<open>
  \<open>one_hot_encode\<close> works on an array of any one element type, numbers or strings; the
  values of a column are compared and sorted, hence the order on the type. An index into an
  axis of length \<open>n\<close> may be negative, counted from the end, and raises when out of bounds.
\<close>

definition np_index :: "int \<Rightarrow> nat \<Rightarrow> py_error + nat" where
  "np_index i n =
     (if 0 \<le> i \<and> i < int n then Inr (nat i)
      else if - int n \<le> i \<and> i < 0 then Inr (nat (int n + i))
      else Inl IndexError)"

text \<open>\<^verbatim>\<open>np.delete(X, index, 1)\<close>: the array without the column \<open>index\<close>.\<close>

definition np_delete :: "'a list list \<Rightarrow> int \<Rightarrow> py_error + 'a list list" where
  "np_delete X index =
     (case np_index index (ncols X) of
        Inl e \<Rightarrow> Inl e
      | Inr j \<Rightarrow> Inr (map (\<lambda>r. take j r @ drop (Suc j) r) X))"

text \<open>\<^verbatim>\<open>X[:, index]\<close>.\<close>

definition np_column :: "'a list list \<Rightarrow> int \<Rightarrow> py_error + 'a list" where
  "np_column X index =
     (case np_index index (ncols X) of
        Inl e \<Rightarrow> Inl e
      | Inr j \<Rightarrow> Inr (map (\<lambda>r. r ! j) X))"

text \<open>\<^verbatim>\<open>np.unique\<close>: the distinct values, sorted.\<close>

definition np_unique :: "'a::linorder list \<Rightarrow> 'a list" where
  "np_unique xs = sort (remdups xs)"

text \<open>
  \<^verbatim>\<open>np.concatenate((one_hot, X_transformed), axis=1)\<close>. The two arrays need the same number
  of rows. The result has the element type of \<open>X\<close>; \<open>cast\<close> is numpy's conversion of the
  integers of \<open>one_hot\<close> to that type.
\<close>

definition np_concatenate ::
  "(int \<Rightarrow> 'a) \<Rightarrow> int list list \<Rightarrow> 'a list list \<Rightarrow> py_error + 'a list list" where
  "np_concatenate cast A B =
     (if length A = length B then Inr (map2 (\<lambda>a b. map cast a @ b) A B)
      else Inl (ValueError ''all the input array dimensions except for the concatenation axis must match exactly''))"

text \<open>The first loop, lines 200 and 201.\<close>

fun delete_columns :: "'a list list \<Rightarrow> int list \<Rightarrow> py_error + 'a list list" where
  "delete_columns X_transformed [] = Inr X_transformed"
| "delete_columns X_transformed (index # indices) =
     (case np_delete X_transformed index of
        Inl e \<Rightarrow> Inl e
      | Inr X' \<Rightarrow> delete_columns X' indices)"

text \<open>Lines 208 to 229: the indicator matrix of one categorical column.\<close>

definition one_hot :: "'a::linorder list \<Rightarrow> bool \<Rightarrow> int list list" where
  "one_hot categorical_column drop_first =
     (let unique_values = np_unique categorical_column;
          values = map (\<lambda>v. map (\<lambda>value. if v = value then 1 else 0) unique_values)
                     categorical_column
      in if drop_first then map (drop 1) values else values)"

text \<open>The second loop, lines 203 to 232.\<close>

fun insert_one_hot ::
  "(int \<Rightarrow> 'a) \<Rightarrow> 'a::linorder list list \<Rightarrow> bool \<Rightarrow> int list \<Rightarrow> 'a list list
     \<Rightarrow> py_error + 'a list list" where
  "insert_one_hot cast X drop_first [] X_transformed = Inr X_transformed"
| "insert_one_hot cast X drop_first (index # indices) X_transformed =
     (case np_column X index of
        Inl e \<Rightarrow> Inl e
      | Inr categorical_column \<Rightarrow>
     (case np_concatenate cast (one_hot categorical_column drop_first) X_transformed of
        Inl e \<Rightarrow> Inl e
      | Inr X' \<Rightarrow> insert_one_hot cast X drop_first indices X'))"

text \<open>\<^verbatim>\<open>sorted(categorical_indices, reverse=True)\<close> is \<open>rev (sort categorical_indices)\<close>.\<close>

definition one_hot_encode ::
  "(int \<Rightarrow> 'a) \<Rightarrow> 'a::linorder list list \<Rightarrow> int list \<Rightarrow> bool \<Rightarrow> py_error + 'a list list" where
  "one_hot_encode cast X categorical_indices drop_first =
     (case delete_columns X (rev (sort categorical_indices)) of
        Inl e \<Rightarrow> Inl e
      | Inr X_transformed \<Rightarrow>
          insert_one_hot cast X drop_first (rev (sort categorical_indices)) X_transformed)"

section \<open>Well-formed data and the quantities the specification names\<close>

text \<open>
  A numpy array is rectangular: every row of a two-dimensional array has \<open>X.shape[1]\<close>
  entries.
\<close>

definition is_matrix :: "'a list list \<Rightarrow> bool" where
  "is_matrix X = list_all (\<lambda>r. length r = ncols X) X"

definition well_formed :: "ndarray \<Rightarrow> bool" where
  "well_formed X = (case X of Arr1 xs \<Rightarrow> True | Arr2 rows \<Rightarrow> is_matrix rows)"

text \<open>An object whose two attributes are set, to the coefficients and the intercept given.\<close>

definition fitted :: "vec \<times> real \<Rightarrow> LinearRegressor" where
  "fitted p = \<lparr>coefficients = Some (fst p), intercept = Some (snd p)\<rparr>"

text \<open>
  One epoch as the specification words it, on the features \<open>X\<close> without the bias column,
  with \<open>m\<close> the sample count: the predictions \<open>X c + b\<close>, the error \<open>predictions - y\<close>,
  the gradient \<open>(1/m) error\<^sup>T X_augmented\<close> with one component for each augmented column,
  and the update \<open>intercept -= learning_rate * gradient[0]\<close>,
  \<open>coefficients -= learning_rate * gradient[1:]\<close>.
\<close>

definition gd_predictions :: "mat \<Rightarrow> vec \<Rightarrow> real \<Rightarrow> vec" where
  "gd_predictions X c b = map (\<lambda>r. dot r c + b) X"

definition gd_error :: "mat \<Rightarrow> vec \<Rightarrow> vec \<Rightarrow> real \<Rightarrow> vec" where
  "gd_error X y c b = map2 (-) (gd_predictions X c b) y"

definition gd_gradient :: "mat \<Rightarrow> vec \<Rightarrow> vec \<Rightarrow> real \<Rightarrow> vec" where
  "gd_gradient X y c b =
     map (\<lambda>j. 1 / real (length y) *
               (\<Sum>i\<leftarrow>[0..<length y]. gd_error X y c b ! i * insert_ones X ! i ! j))
       [0..<Suc (ncols X)]"

definition gd_update :: "mat \<Rightarrow> vec \<Rightarrow> real \<Rightarrow> vec \<times> real \<Rightarrow> vec \<times> real" where
  "gd_update X y learning_rate p =
     (case p of (c, b) \<Rightarrow>
        (map2 (\<lambda>cj gj. cj - learning_rate * gj) c (tl (gd_gradient X y c b)),
         b - learning_rate * hd (gd_gradient X y c b)))"

text \<open>The mean squared error of an epoch, taken before its update.\<close>

definition gd_mse :: "mat \<Rightarrow> vec \<Rightarrow> vec \<times> real \<Rightarrow> real" where
  "gd_mse X y p =
     (case p of (c, b) \<Rightarrow> 1 / real (length y) * (\<Sum>e\<leftarrow>gd_error X y c b. e ^ 2))"

text \<open>The random start of lines 97 to 100, for \<open>k\<close> features.\<close>

definition gd_init :: "(nat \<Rightarrow> real) \<Rightarrow> nat \<Rightarrow> vec \<times> real" where
  "gd_init rand k = (map (\<lambda>i. rand i * 0.01) [0..<k], rand k * 0.01)"

text \<open>
  For the encoding: the entries of a row outside the columns \<open>S\<close>, in their order, and the
  indicator entries that the categorical column \<open>c\<close> contributes to the row \<open>r\<close> of \<open>X\<close>.
\<close>

definition remaining :: "nat set \<Rightarrow> 'a list \<Rightarrow> 'a list" where
  "remaining S r = map (\<lambda>j. r ! j) (filter (\<lambda>j. j \<notin> S) [0..<length r])"

definition indicators :: "(int \<Rightarrow> 'a) \<Rightarrow> 'a::linorder list list \<Rightarrow> bool \<Rightarrow> 'a list \<Rightarrow> int \<Rightarrow> 'a list" where
  "indicators cast X drop_first r c =
     map cast (drop (if drop_first then 1 else 0)
       (map (\<lambda>value. if r ! nat c = value then 1 else 0)
          (np_unique (map (\<lambda>r'. r' ! nat c) X))))"

text \<open>
  Matrix algebra on lists of rows, for the least-squares path: the product of a matrix and a
  vector, the product of two matrices, the identity matrix, and the shape \<open>m \<times> n\<close>.
\<close>

definition mat_vec :: "mat \<Rightarrow> vec \<Rightarrow> vec" where
  "mat_vec A v = map (\<lambda>r. dot r v) A"

definition mat_mul :: "mat \<Rightarrow> mat \<Rightarrow> mat" where
  "mat_mul A B = map (\<lambda>r. map (\<lambda>c. dot r c) (transpose B)) A"

definition identity :: "nat \<Rightarrow> mat" where
  "identity n = map (\<lambda>i. map (\<lambda>j. if i = j then 1 else 0) [0..<n]) [0..<n]"

definition dims :: "nat \<Rightarrow> nat \<Rightarrow> mat \<Rightarrow> bool" where
  "dims m n A = (length A = m \<and> list_all (\<lambda>r. length r = n) A)"

text \<open>
  The bias-augmented matrix \<open>X_aug\<close> of \<open>fit\<close>, the matrix \<open>X_aug\<^sup>T X_aug\<close> of the normal
  equation, what it means for \<open>M\<close> to be the inverse of a square matrix \<open>G\<close>, and the
  parameter vector \<open>w = (X_aug\<^sup>T X_aug)\<^sup>-\<^sup>1 (X_aug\<^sup>T y)\<close> as the specification writes it,
  with \<open>M\<close> for the inverse.
\<close>

definition augmented :: "ndarray \<Rightarrow> mat" where
  "augmented X = insert_ones (as_2d X)"

definition gram :: "ndarray \<Rightarrow> mat" where
  "gram X = mat_mul (transpose (augmented X)) (augmented X)"

definition inverse_of :: "mat \<Rightarrow> mat \<Rightarrow> bool" where
  "inverse_of M G =
     (dims (length G) (length G) M \<and> mat_mul M G = identity (length G)
      \<and> mat_mul G M = identity (length G))"

definition normal_equation_w :: "mat \<Rightarrow> ndarray \<Rightarrow> vec \<Rightarrow> vec" where
  "normal_equation_w M X y = mat_vec M (mat_vec (transpose (augmented X)) y)"

text \<open>
  The bias-augmented matrix of the least-squares claim, written from its words and without the
  reshape of the code: a one-dimensional \<open>X\<close> is one feature, so each of its entries \<open>x\<close>
  gives the row \<open>[1, x]\<close>; a two-dimensional \<open>X\<close> gets a one in front of every row. With it
  come the number of samples, the number of features, and the parameter vector
  \<open>w = (X_aug\<^sup>T X_aug)\<^sup>-\<^sup>1 (X_aug\<^sup>T y)\<close>, with \<open>M\<close> for the inverse.
\<close>

definition nrows :: "ndarray \<Rightarrow> nat" where
  "nrows X = (case X of Arr1 xs \<Rightarrow> length xs | Arr2 rows \<Rightarrow> length rows)"

definition nfeatures :: "ndarray \<Rightarrow> nat" where
  "nfeatures X = (case X of Arr1 xs \<Rightarrow> 1 | Arr2 rows \<Rightarrow> ncols rows)"

definition design_matrix :: "ndarray \<Rightarrow> mat" where
  "design_matrix X =
     (case X of Arr1 xs \<Rightarrow> map (\<lambda>x. [1, x]) xs | Arr2 rows \<Rightarrow> map (\<lambda>r. 1 # r) rows)"

definition normal_equation_solution :: "mat \<Rightarrow> ndarray \<Rightarrow> vec \<Rightarrow> vec" where
  "normal_equation_solution M X y = mat_vec M (mat_vec (transpose (design_matrix X)) y)"

text \<open>
  The inverse of a two-by-two matrix by its adjugate: what \<^verbatim>\<open>np.linalg.inv\<close> computes on
  such a matrix in exact arithmetic. It stands for the parameter \<open>linalg_inv\<close> in the
  examples.
\<close>

definition inv_2x2 :: "mat \<Rightarrow> py_error + mat" where
  "inv_2x2 G =
     (case G of
        [[a, b], [c, d]] \<Rightarrow>
          (if a * d - b * c = 0 then Inl LinAlgError
           else Inr [[d / (a * d - b * c), - b / (a * d - b * c)],
                     [- c / (a * d - b * c), a / (a * d - b * c)]])
      | _ \<Rightarrow> Inl LinAlgError)"

section \<open>Rectangular matrices\<close>

lemma is_matrixD: "is_matrix X \<Longrightarrow> r \<in> set X \<Longrightarrow> length r = ncols X"
  by (simp add: is_matrix_def list_all_iff)

lemma transpose_is_matrix:
  assumes "is_matrix X" and "X \<noteq> []"
  shows "transpose X = map (\<lambda>j. map (\<lambda>r. r ! j) X) [0..<ncols X]"
proof -
  have "\<And>i. i < length X \<Longrightarrow> length (X ! i) = ncols X"
    using assms(1) by (simp add: is_matrixD)
  moreover have "X = [] \<Longrightarrow> ncols X = 0"
    using assms(2) by simp
  ultimately have "transpose X = map (\<lambda>i. map (\<lambda>j. X ! j ! i) [0..<length X]) [0..<ncols X]"
    by (rule transpose_rectangle [rotated])
  also have "\<dots> = map (\<lambda>j. map (\<lambda>r. r ! j) X) [0..<ncols X]"
  proof -
    have "map (\<lambda>j. X ! j ! i) [0..<length X] = map (\<lambda>r. r ! i) X" for i
      by (rule nth_equalityI) simp_all
    then show ?thesis by simp
  qed
  finally show ?thesis .
qed

lemma dot_Cons [simp]: "dot (x # xs) (y # ys) = x * y + dot xs ys"
  by (simp add: dot_def)

lemma dot_Nil [simp]: "dot [] ys = 0" "dot xs [] = 0"
  by (simp_all add: dot_def)

lemma sum_list_upt_Suc_shift:
  "(\<Sum>i\<leftarrow>[0..<Suc n]. f i) = f 0 + (\<Sum>i\<leftarrow>[0..<n]. f (Suc i))"
proof -
  have "[0..<Suc n] = 0 # map Suc [0..<n]"
    by (simp add: upt_conv_Cons map_Suc_upt del: upt_Suc)
  then show ?thesis by (simp add: comp_def del: upt_Suc)
qed

lemma dot_column:
  "length v = length X \<Longrightarrow>
     dot v (map (\<lambda>r. r ! j) X) = (\<Sum>i\<leftarrow>[0..<length X]. v ! i * X ! i ! j)"
proof (induction X arbitrary: v)
  case Nil then show ?case by simp
next
  case (Cons r X)
  then obtain a v' where v: "v = a # v'" by (cases v) auto
  with Cons show ?case
    by (simp del: upt_Suc add: sum_list_upt_Suc_shift)
qed

lemma ncols_insert_ones: "X \<noteq> [] \<Longrightarrow> ncols (insert_ones X) = Suc (ncols X)"
  by (cases X) (simp_all add: ncols_def insert_ones_def)

lemma is_matrix_insert_ones: "is_matrix X \<Longrightarrow> is_matrix (insert_ones X)"
  by (cases X) (auto simp: is_matrix_def ncols_def insert_ones_def list_all_iff)

lemma drop_first_column_insert_ones: "drop_first_column (insert_ones X) = X"
  by (simp add: drop_first_column_def insert_ones_def comp_def)

lemma np_dot_vm_matrix:
  assumes "is_matrix A" and "A \<noteq> []" and "length v = length A"
  shows "np_dot_vm v A = Inr (map (\<lambda>j. \<Sum>i\<leftarrow>[0..<length A]. v ! i * A ! i ! j) [0..<ncols A])"
  using assms by (simp add: np_dot_vm_def transpose_is_matrix dot_column comp_def)
section \<open>The gradient-descent loop\<close>

text \<open>
  On well-formed data one pass of the loop body is the update of the specification, followed
  by the two remainders of lines 114 and 118, which raise when their divisor is zero.
\<close>

lemma length_gd_error: "length y = length X \<Longrightarrow> length (gd_error X y c b) = length X"
  by (simp add: gd_error_def gd_predictions_def)

lemma length_gd_gradient: "length (gd_gradient X y c b) = Suc (ncols X)"
  by (simp add: gd_gradient_def)

lemma gd_gradient_Cons:
  "gd_gradient X y c b = hd (gd_gradient X y c b) # tl (gd_gradient X y c b)"
  by (cases "gd_gradient X y c b") (use length_gd_gradient [of X y c b] in auto)

lemma length_gd_update:
  "length c = ncols X \<Longrightarrow> length (fst (gd_update X y lr (c, b))) = ncols X"
  by (simp add: gd_update_def length_gd_gradient)

lemma gd_epoch_matrix:
  assumes X: "is_matrix X" "X \<noteq> []" and y: "length y = length X" and c: "length c = ncols X"
  shows "gd_epoch (insert_ones X) y learning_rate iterations (length y) epoch
           (fitted (c, b), mse_list, coefs, intercepts) =
         (if iterations div 10 = 0 \<or> iterations div 100 = 0
          then (Some ZeroDivisionError, fitted (gd_update X y learning_rate (c, b)),
                mse_list, coefs, intercepts)
          else (None, fitted (gd_update X y learning_rate (c, b)),
                mse_list @ [gd_mse X y (c, b)],
                coefs @ [fst (gd_update X y learning_rate (c, b))],
                intercepts @ [snd (gd_update X y learning_rate (c, b))]))"
proof -
  let ?A = "insert_ones X"
  let ?e = "gd_error X y c b"
  have pred: "fst (predict (Arr2 (drop_first_column ?A)) (fitted (c, b)))
                = Inr (gd_predictions X c b)"
    using c by (simp add: predict_def fitted_def drop_first_column_insert_ones np_dot_mv_def
        gd_predictions_def)
  have err: "np_broadcast (-) (gd_predictions X c b) y = Inr ?e"
    using y by (simp add: np_broadcast_def gd_error_def gd_predictions_def)
  have m: "length y \<noteq> 0" using X(2) y by simp
  have A: "is_matrix ?A" "?A \<noteq> []" "length ?e = length ?A" "ncols ?A = Suc (ncols X)"
    "length ?A = length y"
    using X y by (simp_all add: is_matrix_insert_ones ncols_insert_ones length_gd_error)
      (simp_all add: insert_ones_def)
  have g: "np_dot_vm ?e ?A
             = Inr (map (\<lambda>j. \<Sum>i\<leftarrow>[0..<length y]. ?e ! i * ?A ! i ! j) [0..<Suc (ncols X)])"
    using np_dot_vm_matrix [OF A(1,2,3)] A(4,5) by simp
  have grad: "map (\<lambda>v. 1 / real (length y) * v)
                (map (\<lambda>j. \<Sum>i\<leftarrow>[0..<length y]. ?e ! i * ?A ! i ! j) [0..<Suc (ncols X)])
              = gd_gradient X y c b"
    by (simp add: gd_gradient_def comp_def del: upt_Suc)
  have sub: "np_isub c (map (\<lambda>v. learning_rate * v) (tl (gd_gradient X y c b)))
               = Inr (fst (gd_update X y learning_rate (c, b)))"
  proof -
    have "map2 (-) c (map (\<lambda>v. learning_rate * v) gs)
            = map2 (\<lambda>cj gj. cj - learning_rate * gj) c gs" for gs
      by (simp add: zip_map2 comp_def split_def)
    then show ?thesis
      using c by (simp add: np_isub_def gd_update_def length_gd_gradient)
  qed
  have upd: "fitted (c, b)\<lparr>intercept := Some (b - learning_rate * hd (gd_gradient X y c b)),
               coefficients := Some (fst (gd_update X y learning_rate (c, b)))\<rparr>
             = fitted (gd_update X y learning_rate (c, b))"
    by (simp add: fitted_def gd_update_def)
  have snd_upd: "b - learning_rate * hd (gd_gradient X y c b)
                   = snd (gd_update X y learning_rate (c, b))"
    by (simp add: gd_update_def)
  have mse: "1 / real (length y) * (\<Sum>e\<leftarrow>?e. e ^ 2) = gd_mse X y (c, b)"
    by (simp add: gd_mse_def)
  have co: "coefficients (fitted (c, b)) = Some c" "intercept (fitted (c, b)) = Some b"
    by (simp_all add: fitted_def)
  show ?thesis
    apply (subst gd_epoch.simps)
    apply (simp only: pred sum.case err m if_False g grad)
    apply (subst gd_gradient_Cons)
    apply (simp only: list.case co option.case sub sum.case upd snd_upd mse)
    apply (simp add: fitted_def)
    done
qed

lemma map_upt_Suc_shift: "map f [0..<Suc n] = f 0 # map (\<lambda>i. f (Suc i)) [0..<n]"
proof -
  have "[0..<Suc n] = 0 # map Suc [0..<n]"
    by (simp add: upt_conv_Cons map_Suc_upt del: upt_Suc)
  then show ?thesis by (simp add: comp_def del: upt_Suc)
qed

lemma gd_loop_runs:
  assumes X: "is_matrix X" "X \<noteq> []" and y: "length y = length X"
    and its: "100 \<le> iterations"
  shows "length (fst p) = ncols X \<Longrightarrow>
         gd_loop (insert_ones X) y lr iterations (length y) epochs
           (fitted p, mse_list, coefs, intercepts) =
         (None, fitted ((gd_update X y lr ^^ length epochs) p),
          mse_list @ map (\<lambda>i. gd_mse X y ((gd_update X y lr ^^ i) p)) [0..<length epochs],
          coefs @ map (\<lambda>i. fst ((gd_update X y lr ^^ Suc i) p)) [0..<length epochs],
          intercepts @ map (\<lambda>i. snd ((gd_update X y lr ^^ Suc i) p)) [0..<length epochs])"
proof (induction epochs arbitrary: p mse_list coefs intercepts)
  case Nil
  then show ?case by simp
next
  case (Cons epoch epochs)
  obtain c b where p: "p = (c, b)" by (cases p)
  have c: "length c = ncols X" using Cons.prems p by simp
  have ok: "\<not> (iterations div 10 = 0 \<or> iterations div 100 = 0)"
    using its by auto
  have step: "gd_epoch (insert_ones X) y lr iterations (length y) epoch
                (fitted p, mse_list, coefs, intercepts)
              = (None, fitted (gd_update X y lr p), mse_list @ [gd_mse X y p],
                 coefs @ [fst (gd_update X y lr p)], intercepts @ [snd (gd_update X y lr p)])"
    unfolding p using gd_epoch_matrix [OF X y c, of lr iterations epoch b] ok
    by (simp del: gd_epoch.simps)
  have len: "length (fst (gd_update X y lr p)) = ncols X"
    using length_gd_update [OF c] p by simp
  let ?u = "gd_update X y lr"
  have sw: "(?u ^^ i) (?u p) = (?u ^^ Suc i) p" for i
    by (simp add: funpow_swap1)
  have shift: "map (\<lambda>i. f ((?u ^^ i) p)) [0..<Suc n]
                 = f p # map (\<lambda>i. f ((?u ^^ i) (?u p))) [0..<n]" for f :: "vec \<times> real \<Rightarrow> 'b" and n
    unfolding map_upt_Suc_shift sw by simp
  have shift': "map (\<lambda>i. f ((?u ^^ Suc i) p)) [0..<Suc n]
                 = f (?u p) # map (\<lambda>i. f ((?u ^^ Suc i) (?u p))) [0..<n]"
    for f :: "vec \<times> real \<Rightarrow> 'b" and n
    unfolding map_upt_Suc_shift sw by simp
  have Suc_len: "length (epoch # epochs) = Suc (length epochs)" by simp
  show ?case
    unfolding Suc_len shift shift'
    by (simp only: gd_loop.simps step prod.case option.case Cons.IH [OF len] sw
        append_assoc append_Cons append_Nil)
qed

lemma gd_loop_fault:
  assumes X: "is_matrix X" "X \<noteq> []" and y: "length y = length X"
    and c: "length (fst p) = ncols X"
    and its: "iterations div 10 = 0 \<or> iterations div 100 = 0"
  shows "gd_loop (insert_ones X) y lr iterations (length y) (epoch # epochs)
           (fitted p, mse_list, coefs, intercepts) =
         (Some ZeroDivisionError, fitted (gd_update X y lr p), mse_list, coefs, intercepts)"
proof -
  obtain c b where p: "p = (c, b)" by (cases p)
  have c': "length c = ncols X" using c p by simp
  show ?thesis
    unfolding p using gd_epoch_matrix [OF X y c', of lr iterations epoch b] its
    by (simp del: gd_epoch.simps)
qed

lemma py_range_Cons: "0 < n \<Longrightarrow> py_range n = 0 # map int [1..<nat n]"
  by (simp add: py_range_def upt_conv_Cons)

lemma py_range_Nil: "n \<le> 0 \<Longrightarrow> py_range n = []"
  by (simp add: py_range_def)

lemma length_py_range: "length (py_range n) = nat n"
  by (simp add: py_range_def)

lemma fit_gradient_descent_start:
  "fit_gradient_descent rand A y lr iterations self =
     (case gd_loop A y lr iterations (length y) (py_range iterations)
             (fitted (gd_init rand (ncols A - 1)), [], [], []) of
        (Some e, self', h) \<Rightarrow> (Inl e, self')
      | (None, self', h) \<Rightarrow> (Inr h, self'))"
proof -
  have "self\<lparr>coefficients := Some cs, intercept := Some b0\<rparr> = fitted (cs, b0)" for cs b0
    by (simp add: fitted_def)
  then show ?thesis
    by (simp add: fit_gradient_descent_def gd_init_def Let_def del: gd_loop.simps)
qed

lemma fit_gradient_descent_runs:
  assumes X: "is_matrix X" "X \<noteq> []" and y: "length y = length X"
    and its: "100 \<le> iterations"
  shows "fit_gradient_descent rand (insert_ones X) y lr iterations self =
         (Inr (map (\<lambda>i. gd_mse X y ((gd_update X y lr ^^ i) (gd_init rand (ncols X))))
                 [0..<nat iterations],
               map (\<lambda>i. fst ((gd_update X y lr ^^ Suc i) (gd_init rand (ncols X))))
                 [0..<nat iterations],
               map (\<lambda>i. snd ((gd_update X y lr ^^ Suc i) (gd_init rand (ncols X))))
                 [0..<nat iterations]),
          fitted ((gd_update X y lr ^^ nat iterations) (gd_init rand (ncols X))))"
proof -
  have len: "length (fst (gd_init rand (ncols X))) = ncols X"
    by (simp add: gd_init_def)
  show ?thesis
    unfolding fit_gradient_descent_start
    using gd_loop_runs [OF X y its len, of lr "py_range iterations" "[]" "[]" "[]"]
    by (simp add: ncols_insert_ones X length_py_range del: gd_loop.simps)
qed

lemma fit_gradient_descent_fault:
  assumes X: "is_matrix X" "X \<noteq> []" and y: "length y = length X"
    and its: "0 < iterations" "iterations < 100"
  shows "fit_gradient_descent rand (insert_ones X) y lr iterations self =
         (Inl ZeroDivisionError, fitted (gd_update X y lr (gd_init rand (ncols X))))"
proof -
  have len: "length (fst (gd_init rand (ncols X))) = ncols X"
    by (simp add: gd_init_def)
  have z: "iterations div 10 = 0 \<or> iterations div 100 = 0"
    using its by simp
  show ?thesis
    unfolding fit_gradient_descent_start py_range_Cons [OF its(1)]
    using gd_loop_fault [OF X y len z, of lr 0 "map int [1..<nat iterations]" "[]" "[]" "[]"]
    by (simp add: ncols_insert_ones X del: gd_loop.simps)
qed

lemma fit_gradient_descent_no_epoch:
  "iterations \<le> 0 \<Longrightarrow>
     fit_gradient_descent rand A y lr iterations self =
       (Inr ([], [], []), fitted (gd_init rand (ncols A - 1)))"
  unfolding fit_gradient_descent_start by (simp add: py_range_Nil)

lemma fit_gradient_descent_empty:
  assumes "0 < iterations"
  shows "fst (fit_gradient_descent rand (insert_ones []) [] lr iterations self)
           = Inl ZeroDivisionError"
  unfolding fit_gradient_descent_start py_range_Cons [OF assms]
  by (simp add: insert_ones_def ncols_def gd_init_def fitted_def predict_def
      drop_first_column_def np_dot_mv_def np_broadcast_def)

lemma is_matrix_column: "is_matrix (map (\<lambda>x. [x]) xs)"
  by (cases xs) (simp_all add: is_matrix_def ncols_def list_all_iff)

lemma is_matrix_as_2d: "well_formed X \<Longrightarrow> is_matrix (as_2d X)"
  by (cases X) (simp_all add: well_formed_def as_2d_def is_matrix_column)

lemma fit_gradient_descent_path:
  "fit linalg_inv rand X y ''gradient_descent'' lr iterations self =
     (case fit_gradient_descent rand (insert_ones (as_2d X)) y lr iterations self of
        (Inl e, self') \<Rightarrow> (Inl e, self')
      | (Inr h, self') \<Rightarrow> (Inr (Some h), self'))"
  by (simp add: fit_def)

lemma fit_least_squares_path:
  "fit linalg_inv rand X y ''least_squares'' lr iterations self =
     (case fit_multiple linalg_inv (insert_ones (as_2d X)) y self of
        (Inl e, self') \<Rightarrow> (Inl e, self')
      | (Inr u, self') \<Rightarrow> (Inr None, self'))"
  by (simp add: fit_def)

lemma gd_epoch_keeps_set:
  assumes "gd_epoch A y lr iterations m epoch (self, h) = (r, self', h')"
    and "coefficients self \<noteq> None" and "intercept self \<noteq> None"
  shows "coefficients self' \<noteq> None \<and> intercept self' \<noteq> None"
  using assms
  by (cases h) (auto split: sum.splits if_splits list.splits option.splits)

lemma gd_loop_keeps_set:
  "gd_loop A y lr iterations m epochs (self, h) = (r, self', h') \<Longrightarrow>
   coefficients self \<noteq> None \<Longrightarrow> intercept self \<noteq> None \<Longrightarrow>
   coefficients self' \<noteq> None \<and> intercept self' \<noteq> None"
proof (induction epochs arbitrary: self h)
  case Nil
  then show ?case by simp
next
  case (Cons epoch epochs)
  obtain r1 s1 h1 where step: "gd_epoch A y lr iterations m epoch (self, h) = (r1, s1, h1)"
    by (cases "gd_epoch A y lr iterations m epoch (self, h)") auto
  have s1: "coefficients s1 \<noteq> None \<and> intercept s1 \<noteq> None"
    using gd_epoch_keeps_set [OF step Cons.prems(2,3)] .
  show ?case
  proof (cases r1)
    case None
    then have "gd_loop A y lr iterations m epochs (s1, h1) = (r, self', h')"
      using Cons.prems(1) step by (simp del: gd_epoch.simps)
    then show ?thesis using Cons.IH s1 by blast
  next
    case (Some e)
    then have "self' = s1"
      using Cons.prems(1) step by (simp del: gd_epoch.simps)
    then show ?thesis using s1 by simp
  qed
qed

lemma fit_gradient_descent_sets_both:
  "coefficients (snd (fit_gradient_descent rand A y lr iterations self)) \<noteq> None
   \<and> intercept (snd (fit_gradient_descent rand A y lr iterations self)) \<noteq> None"
proof -
  obtain r s h where loop:
    "gd_loop A y lr iterations (length y) (py_range iterations)
       (fitted (gd_init rand (ncols A - 1)), [], [], []) = (r, s, h)"
    using prod_cases3 by blast
  have "coefficients s \<noteq> None \<and> intercept s \<noteq> None"
    using gd_loop_keeps_set [OF loop] by (simp add: fitted_def)
  then show ?thesis
    unfolding fit_gradient_descent_start loop by (cases r) simp_all
qed

lemma fit_multiple_outcome:
  "(fst (fit_multiple linalg_inv A y self) = Inl e \<longrightarrow> snd (fit_multiple linalg_inv A y self) = self)
   \<and> (fst (fit_multiple linalg_inv A y self) = Inr u \<longrightarrow>
        coefficients (snd (fit_multiple linalg_inv A y self)) \<noteq> None
        \<and> intercept (snd (fit_multiple linalg_inv A y self)) \<noteq> None)"
  by (auto simp: fit_multiple_def split: sum.splits list.splits)

lemma gd_epoch_appends:
  assumes "gd_epoch A y lr iterations m epoch (self, mse_list, coefs, intercepts)
             = (None, self', mse_list', coefs', intercepts')"
  shows "length mse_list' = Suc (length mse_list) \<and> length coefs' = Suc (length coefs)
         \<and> length intercepts' = Suc (length intercepts)"
  using assms by (auto split: sum.splits if_splits list.splits option.splits)

lemma gd_loop_appends:
  "gd_loop A y lr iterations m epochs (self, mse_list, coefs, intercepts)
     = (None, self', mse_list', coefs', intercepts') \<Longrightarrow>
   length mse_list' = length mse_list + length epochs
   \<and> length coefs' = length coefs + length epochs
   \<and> length intercepts' = length intercepts + length epochs"
proof (induction epochs arbitrary: self mse_list coefs intercepts)
  case Nil
  then show ?case by simp
next
  case (Cons epoch epochs)
  obtain r1 s1 ms1 cs1 bs1 where step:
    "gd_epoch A y lr iterations m epoch (self, mse_list, coefs, intercepts)
       = (r1, s1, ms1, cs1, bs1)"
    using prod_cases5 by blast
  have r1: "r1 = None"
    using Cons.prems step by (cases r1) (simp_all del: gd_epoch.simps)
  have rest: "gd_loop A y lr iterations m epochs (s1, ms1, cs1, bs1)
                = (None, self', mse_list', coefs', intercepts')"
    using Cons.prems step r1 by (simp del: gd_epoch.simps)
  show ?case
    using Cons.IH [OF rest] gd_epoch_appends [OF step [unfolded r1]] by simp
qed

lemma fit_gradient_descent_lengths:
  assumes "fst (fit_gradient_descent rand A y lr iterations self) = Inr h"
  shows "\<exists>mse_list coefs intercepts. h = (mse_list, coefs, intercepts)
           \<and> length mse_list = nat iterations \<and> length coefs = nat iterations
           \<and> length intercepts = nat iterations"
proof -
  obtain r s ms cs bs where loop:
    "gd_loop A y lr iterations (length y) (py_range iterations)
       (fitted (gd_init rand (ncols A - 1)), [], [], []) = (r, s, ms, cs, bs)"
    using prod_cases5 by blast
  have r: "r = None" and h: "h = (ms, cs, bs)"
    using assms unfolding fit_gradient_descent_start loop by (cases r; simp)+
  show ?thesis
    using gd_loop_appends [OF loop [unfolded r]] h by (simp add: length_py_range)
qed
lemma ncols_insert_ones_pred: "ncols (insert_ones A) - Suc 0 = ncols A"
  by (cases A) (simp_all add: ncols_def insert_ones_def)
section \<open>The two loops of the encoding\<close>

text \<open>
  Deleting the categorical columns from the highest index down leaves, in every row, the
  entries outside these columns; the second loop puts the indicator blocks in front, the block
  of the lowest column first.
\<close>

lemma remaining_empty: "remaining {} r = r"
  by (simp add: remaining_def map_nth)

lemma remaining_split:
  assumes "j < length r" and "\<And>s. s \<in> S \<Longrightarrow> j < s"
  shows "remaining S r = take j r @ r ! j # map (\<lambda>i. r ! i) (filter (\<lambda>i. i \<notin> S) [Suc j..<length r])"
proof -
  have "[0..<length r] = [0..<j] @ j # [Suc j..<length r]"
    using assms(1) by (metis le_add2 le_add_same_cancel2 less_imp_add_positive upt_add_eq_append upt_conv_Cons)
  moreover have "filter (\<lambda>i. i \<notin> S) [0..<j] = [0..<j]"
    by (auto simp: filter_id_conv dest: assms(2))
  moreover have "j \<notin> S" by (auto dest: assms(2))
  moreover have "map (\<lambda>i. r ! i) [0..<j] = take j r"
    using assms(1) by (auto intro!: nth_equalityI)
  ultimately show ?thesis
    by (simp add: remaining_def)
qed

lemma remaining_delete:
  assumes "j < length r" and "\<And>s. s \<in> S \<Longrightarrow> j < s"
  shows "take j (remaining S r) @ drop (Suc j) (remaining S r) = remaining (insert j S) r"
proof -
  let ?rest = "map (\<lambda>i. r ! i) (filter (\<lambda>i. i \<notin> S) [Suc j..<length r])"
  have len: "length (take j r) = j" using assms(1) by simp
  have sp: "remaining S r = take j r @ r ! j # ?rest"
    by (rule remaining_split) (fact assms)+
  have l: "take j (remaining S r) @ drop (Suc j) (remaining S r) = take j r @ ?rest"
    by (subst (1 2) sp) (use len in simp)
  have up: "[0..<length r] = [0..<j] @ j # [Suc j..<length r]"
    using assms(1) by (metis le_add2 le_add_same_cancel2 less_imp_add_positive upt_add_eq_append upt_conv_Cons)
  have f1: "filter (\<lambda>i. i \<noteq> j \<and> i \<notin> S) [0..<j] = [0..<j]"
    by (auto simp: filter_id_conv dest: assms(2))
  have f2: "filter (\<lambda>i. i \<noteq> j \<and> i \<notin> S) [Suc j..<length r]
              = filter (\<lambda>i. i \<notin> S) [Suc j..<length r]"
    by (rule filter_cong) auto
  have tk: "map (\<lambda>i. r ! i) [0..<j] = take j r"
    using assms(1) by (auto intro!: nth_equalityI)
  have "remaining (insert j S) r = take j r @ ?rest"
    unfolding remaining_def by (subst up) (simp add: f1 f2 tk)
  with l show ?thesis by simp
qed

lemma length_remaining_bound:
  assumes "j < length r" and "\<And>s. s \<in> S \<Longrightarrow> j < s"
  shows "j < length (remaining S r)"
proof -
  have "remaining S r
          = take j r @ r ! j # map (\<lambda>i. r ! i) (filter (\<lambda>i. i \<notin> S) [Suc j..<length r])"
    by (rule remaining_split) (fact assms)+
  then show ?thesis using assms(1) by simp
qed

lemma ncols_map_nonempty: "X \<noteq> [] \<Longrightarrow> ncols (map f X) = length (f (hd X))"
  by (cases X) (simp_all add: ncols_def)

lemma np_index_valid: "0 \<le> i \<Longrightarrow> nat i < n \<Longrightarrow> np_index i n = Inr (nat i)"
  by (simp add: np_index_def)

lemma delete_columns_descending:
  assumes X: "X \<noteq> []" "\<forall>r\<in>set X. length r = n"
  shows "sorted_wrt (>) ds \<Longrightarrow> \<forall>d\<in>set ds. 0 \<le> d \<and> d < int n \<Longrightarrow>
         \<forall>s\<in>S. \<forall>d\<in>set ds. d < int s \<Longrightarrow>
         delete_columns (map (remaining S) X) ds = Inr (map (remaining (S \<union> nat ` set ds)) X)"
proof (induction ds arbitrary: S)
  case Nil
  then show ?case by simp
next
  case (Cons d ds)
  have d: "0 \<le> d" "nat d < n" using Cons.prems(2) by auto
  have above: "\<And>s. s \<in> S \<Longrightarrow> nat d < s" using Cons.prems(3) d(1) by fastforce
  have hd: "hd X \<in> set X" using X(1) by simp
  have "nat d < length (remaining S (hd X))"
    by (rule length_remaining_bound) (use X(2) hd d(2) above in auto)
  then have idx: "np_index d (ncols (map (remaining S) X)) = Inr (nat d)"
    using d(1) X(1) by (simp add: ncols_map_nonempty np_index_valid)
  have del: "map (\<lambda>r. take (nat d) r @ drop (Suc (nat d)) r) (map (remaining S) X)
               = map (remaining (insert (nat d) S)) X"
  proof -
    have row: "take (nat d) (remaining S r) @ drop (Suc (nat d)) (remaining S r)
            = remaining (insert (nat d) S) r" if "r \<in> set X" for r
      by (rule remaining_delete) (use X(2) that d(2) above in auto)
    show ?thesis
      unfolding map_map comp_def by (rule map_cong [OF refl]) (rule row)
  qed
  have step: "np_delete (map (remaining S) X) d = Inr (map (remaining (insert (nat d) S)) X)"
    unfolding np_delete_def idx by (simp only: sum.case del)
  have sorted: "sorted_wrt (>) ds" and valid: "\<forall>d\<in>set ds. 0 \<le> d \<and> d < int n"
    using Cons.prems(1,2) by simp_all
  have below: "\<forall>s\<in>insert (nat d) S. \<forall>d'\<in>set ds. d' < int s"
    using Cons.prems(1,3) d(1) by auto
  have "insert (nat d) S \<union> nat ` set ds = S \<union> nat ` set (d # ds)" by auto
  then show ?case
    using Cons.IH [OF sorted valid below] step by simp
qed

lemma one_hot_rows:
  "one_hot (map (\<lambda>r. r ! j) X) drop_first
     = map (\<lambda>r. drop (if drop_first then 1 else 0)
                 (map (\<lambda>value. if r ! j = value then 1 else 0)
                    (np_unique (map (\<lambda>r'. r' ! j) X)))) X"
  by (simp add: one_hot_def Let_def comp_def)

lemma insert_one_hot_rows:
  assumes X: "X \<noteq> []"
  shows "\<forall>d\<in>set ds. 0 \<le> d \<and> d < int (ncols X) \<Longrightarrow>
         insert_one_hot cast X drop_first ds (map g X)
           = Inr (map (\<lambda>r. concat (map (indicators cast X drop_first r) (rev ds)) @ g r) X)"
proof (induction ds arbitrary: g)
  case Nil
  then show ?case by simp
next
  case (Cons d ds)
  have d: "0 \<le> d" "nat d < ncols X" using Cons.prems by auto
  have col: "np_column X d = Inr (map (\<lambda>r. r ! nat d) X)"
    using d by (simp add: np_column_def np_index_valid)
  have cat: "np_concatenate cast (one_hot (map (\<lambda>r. r ! nat d) X) drop_first) (map g X)
               = Inr (map (\<lambda>r. indicators cast X drop_first r d @ g r) X)"
    unfolding one_hot_rows
    by (simp add: np_concatenate_def zip_map_map zip_same_conv_map indicators_def comp_def)
  have valid: "\<forall>d\<in>set ds. 0 \<le> d \<and> d < int (ncols X)" using Cons.prems by simp
  show ?case
    using Cons.IH [OF valid, of "\<lambda>r. indicators cast X drop_first r d @ g r"]
    by (simp add: col cat)
qed

lemma one_hot_encode_rows:
  assumes "is_matrix X" and "X \<noteq> []" and "distinct categorical_indices"
    and "\<forall>c\<in>set categorical_indices. 0 \<le> c \<and> c < int (ncols X)"
  shows "one_hot_encode cast X categorical_indices drop_first
           = Inr (map (\<lambda>r. concat (map (indicators cast X drop_first r) (sort categorical_indices))
                           @ remaining (nat ` set categorical_indices) r) X)"
proof -
  let ?ds = "rev (sort categorical_indices)"
  have rect: "\<forall>r\<in>set X. length r = ncols X"
    using assms(1) by (simp add: is_matrix_def list_all_iff)
  have desc: "sorted_wrt (>) ?ds"
    using assms(3) by (simp add: sorted_wrt_rev strict_sorted_iff)
  have valid: "\<forall>d\<in>set ?ds. 0 \<le> d \<and> d < int (ncols X)"
    using assms(4) by simp
  have "delete_columns (map (remaining {}) X) ?ds = Inr (map (remaining ({} \<union> nat ` set ?ds)) X)"
    by (rule delete_columns_descending [OF assms(2) rect desc valid]) simp
  moreover have "map (remaining {}) X = X"
    by (simp add: remaining_empty [abs_def])
  ultimately have del:
    "delete_columns X ?ds = Inr (map (remaining (nat ` set categorical_indices)) X)"
    by simp
  show ?thesis
    unfolding one_hot_encode_def del
    using insert_one_hot_rows [OF assms(2) valid, of cast drop_first
        "remaining (nat ` set categorical_indices)"]
    by simp
qed

lemma length_np_unique: "length (np_unique xs) = card (set xs)"
  by (simp add: np_unique_def length_remdups_card_conv)

lemma length_indicators:
  "length (indicators cast X drop_first r c)
     = card (set (map (\<lambda>r'. r' ! nat c) X)) - (if drop_first then 1 else 0)"
  by (simp add: indicators_def length_np_unique)

lemma length_remaining:
  assumes "distinct cs" and "\<forall>c\<in>set cs. 0 \<le> c \<and> c < int (length r)"
  shows "length (remaining (nat ` set cs) r) = length r - length cs"
proof -
  let ?S = "nat ` set cs"
  have sub: "?S \<subseteq> {..<length r}" using assms(2) by auto
  have "inj_on nat (set cs)"
  proof (rule inj_onI)
    fix x y assume "x \<in> set cs" "y \<in> set cs" "nat x = nat y"
    moreover from this assms(2) have "0 \<le> x" "0 \<le> y" by auto
    ultimately show "x = y" by simp
  qed
  then have card: "card ?S = length cs"
    using assms(1) by (simp add: card_image distinct_card)
  have "{i. i < length r \<and> [0..<length r] ! i \<notin> ?S} = {i. i < length r \<and> i \<notin> ?S}"
    by auto
  then have "length (remaining ?S r) = card {i. i < length r \<and> i \<notin> ?S}"
    by (simp add: remaining_def length_filter_conv_card)
  also have "{i. i < length r \<and> i \<notin> ?S} = {..<length r} - ?S" by auto
  also have "card \<dots> = length r - card ?S"
    using sub by (simp add: card_Diff_subset finite_subset [OF sub])
  finally show ?thesis using card by simp
qed

lemma sum_list_sort: "distinct xs \<Longrightarrow> sum_list (map f (sort xs)) = sum_list (map f xs)"
  for f :: "'a::linorder \<Rightarrow> nat"
  by (simp add: sum_list_distinct_conv_sum_set)

section \<open>Matrix algebra and the normal equation\<close>

text \<open>
  The code multiplies \<open>(M X_aug\<^sup>T) y\<close>; by associativity this is \<open>M (X_aug\<^sup>T y)\<close>, and when
  \<open>M\<close> is the inverse of \<open>X_aug\<^sup>T X_aug\<close> it solves the normal equation.
\<close>

lemma dimsD: "dims m n A \<Longrightarrow> length A = m" "dims m n A \<Longrightarrow> r \<in> set A \<Longrightarrow> length r = n"
  by (simp_all add: dims_def list_all_iff)

lemma dims_is_matrix: "dims m n A \<Longrightarrow> 0 < m \<Longrightarrow> is_matrix A \<and> A \<noteq> [] \<and> ncols A = n"
  by (cases A) (auto simp: dims_def is_matrix_def ncols_def list_all_iff)

lemma transpose_dims:
  assumes "dims m n A" and "0 < m"
  shows "transpose A = map (\<lambda>j. map (\<lambda>r. r ! j) A) [0..<n]"
  using dims_is_matrix [OF assms] transpose_is_matrix [of A] by simp

lemma dims_transpose: "dims m n A \<Longrightarrow> 0 < m \<Longrightarrow> dims n m (transpose A)"
  by (simp add: transpose_dims) (simp add: dims_def list_all_iff)

lemma mat_mul_dims_eq:
  assumes "dims p n B" and "0 < p"
  shows "mat_mul A B = map (\<lambda>r. map (\<lambda>j. dot r (map (\<lambda>b. b ! j) B)) [0..<n]) A"
  by (simp add: mat_mul_def transpose_dims [OF assms] comp_def)

lemma dims_mat_mul: "dims p n B \<Longrightarrow> 0 < p \<Longrightarrow> dims (length A) n (mat_mul A B)"
  by (simp add: mat_mul_dims_eq) (simp add: dims_def list_all_iff)

lemma dot_map_zero: "dot (map (\<lambda>j. 0) js) v = 0"
  by (induction js arbitrary: v) (case_tac v; simp)+

lemma dot_map_add:
  "dot (map (\<lambda>j. f j + g j) js) v = dot (map f js) v + dot (map g js) v"
proof (induction js arbitrary: v)
  case Nil then show ?case by simp
next
  case (Cons j js) then show ?case by (cases v) (simp_all add: algebra_simps)
qed

lemma dot_map_scale: "dot (map (\<lambda>j. c * f j) js) v = c * dot (map f js) v"
proof (induction js arbitrary: v)
  case Nil then show ?case by simp
next
  case (Cons j js) then show ?case by (cases v) (simp_all add: algebra_simps)
qed

lemma dot_row_mat_mul:
  assumes "\<forall>b\<in>set B. length b = q" and "length r = length B"
  shows "dot (map (\<lambda>j. dot r (map (\<lambda>b. b ! j) B)) [0..<q]) v = dot r (map (\<lambda>b. dot b v) B)"
  using assms
proof (induction B arbitrary: r)
  case Nil
  then show ?case by (simp add: dot_map_zero)
next
  case (Cons b B)
  then obtain r0 r' where r: "r = r0 # r'" by (cases r) auto
  have b: "map (\<lambda>j. b ! j) [0..<q] = b" using Cons.prems(1) by (auto intro: nth_equalityI)
  have IH: "dot (map (\<lambda>j. dot r' (map (\<lambda>b. b ! j) B)) [0..<q]) v = dot r' (map (\<lambda>b. dot b v) B)"
    using Cons.IH [of r'] Cons.prems r by simp
  show ?case
    by (simp add: r dot_map_add dot_map_scale IH b del: upt_Suc)
qed

lemma mat_vec_assoc:
  assumes B: "dims p q B" "0 < p" and A: "\<forall>r\<in>set A. length r = p"
  shows "mat_vec (mat_mul A B) v = mat_vec A (mat_vec B v)"
proof -
  have rows: "\<forall>b\<in>set B. length b = q" "length B = p"
    using B(1) by (auto simp: dims_def list_all_iff)
  have "dot (map (\<lambda>j. dot r (map (\<lambda>b. b ! j) B)) [0..<q]) v = dot r (map (\<lambda>b. dot b v) B)"
    if "r \<in> set A" for r
    by (rule dot_row_mat_mul) (use rows A that in auto)
  then show ?thesis
    by (simp add: mat_vec_def mat_mul_dims_eq [OF B] comp_def)
qed

lemma dot_map_map: "dot (map f js) (map g js) = (\<Sum>j\<leftarrow>js. f j * g j)"
  by (simp add: dot_def zip_map_map zip_same_conv_map comp_def)

lemma dot_unit_row:
  assumes "i < length v"
  shows "dot (map (\<lambda>j. if i = j then 1 else 0) [0..<length v]) v = v ! i"
proof -
  have "dot (map (\<lambda>j. if i = j then 1 else 0) [0..<length v]) (map (\<lambda>j. v ! j) [0..<length v])
          = (\<Sum>j\<leftarrow>[0..<length v]. (if i = j then 1 else 0) * v ! j)"
    by (rule dot_map_map)
  also have "\<dots> = (\<Sum>j\<in>{0..<length v}. (if i = j then v ! j else 0))"
    by (simp add: interv_sum_list_conv_sum_set_nat if_distrib [of "\<lambda>x. x * _"] cong: if_cong)
  also have "\<dots> = v ! i"
    using assms by simp
  finally show ?thesis by (simp add: map_nth)
qed

lemma mat_vec_identity: "length v = n \<Longrightarrow> mat_vec (identity n) v = v"
  by (auto simp: mat_vec_def identity_def dot_unit_row intro!: nth_equalityI)

lemma dot_diff: "length u = length v \<Longrightarrow> dot r (map2 (-) u v) = dot r u - dot r v"
proof (induction r arbitrary: u v)
  case Nil then show ?case by simp
next
  case (Cons a r)
  show ?case
  proof (cases u)
    case Nil then show ?thesis using Cons.prems by simp
  next
    case (Cons u0 u')
    then obtain v0 v' where "v = v0 # v'" using Cons.prems by (cases v) auto
    then show ?thesis using Cons.IH [of u' v'] Cons.prems Cons by (simp add: algebra_simps)
  qed
qed

lemma mat_vec_diff:
  "length u = length v \<Longrightarrow> mat_vec A (map2 (-) u v) = map2 (-) (mat_vec A u) (mat_vec A v)"
  by (simp add: mat_vec_def dot_diff zip_map_map zip_same_conv_map comp_def)

lemma dims_augmented:
  assumes "well_formed X" and "as_2d X \<noteq> []"
  shows "dims (length (as_2d X)) (Suc (ncols (as_2d X))) (augmented X)"
proof -
  have "\<forall>r\<in>set (as_2d X). length r = ncols (as_2d X)"
    using is_matrix_as_2d [OF assms(1)] by (simp add: is_matrix_def list_all_iff)
  then show ?thesis
    by (simp add: dims_def augmented_def insert_ones_def list_all_iff)
qed

lemma dims_nonempty: "dims m n A \<Longrightarrow> 0 < m \<Longrightarrow> ncols A = n"
  using dims_is_matrix by blast

lemma length_mat_mul [simp]: "length (mat_mul A B) = length A"
  by (simp add: mat_mul_def)

lemma length_mat_vec [simp]: "length (mat_vec A v) = length A"
  by (simp add: mat_vec_def)

lemma np_dot_mm_dims:
  "dims m p A \<Longrightarrow> 0 < m \<Longrightarrow> length B = p \<Longrightarrow> np_dot_mm A B = Inr (mat_mul A B)"
  by (simp add: np_dot_mm_def mat_mul_def dims_nonempty)

lemma np_dot_mv_dims:
  "dims m p A \<Longrightarrow> 0 < m \<Longrightarrow> length v = p \<Longrightarrow> np_dot_mv A v = Inr (mat_vec A v)"
  by (simp add: np_dot_mv_def mat_vec_def dims_nonempty)

lemma case_list_nonempty:
  "xs \<noteq> [] \<Longrightarrow> (case xs of [] \<Rightarrow> a | x # ys \<Rightarrow> f x ys) = f (hd xs) (tl xs)"
  by (cases xs) simp_all

lemma normal_equation_w_solves:
  assumes X: "well_formed X" "as_2d X \<noteq> []" and M: "inverse_of M (gram X)"
  shows "length (normal_equation_w M X y) = Suc (ncols (as_2d X))"
    and "mat_vec (gram X) (normal_equation_w M X y) = mat_vec (transpose (augmented X)) y"
proof -
  let ?A = "augmented X"
  let ?m = "length (as_2d X)"
  let ?n = "Suc (ncols (as_2d X))"
  let ?w = "normal_equation_w M X y"
  have m: "0 < ?m" using X(2) by simp
  have A: "dims ?m ?n ?A" by (rule dims_augmented [OF X])
  have At: "dims ?n ?m (transpose ?A)" by (rule dims_transpose [OF A m])
  have lenG: "length (gram X) = ?n"
    using At by (simp add: gram_def dimsD)
  have G: "dims ?n ?n (gram X)"
    using dims_mat_mul [OF A m, of "transpose ?A"] At by (simp add: gram_def dimsD)
  have Md: "dims ?n ?n M" and GM: "mat_mul (gram X) M = identity ?n"
    using M by (simp_all add: inverse_of_def lenG)
  show "length ?w = ?n"
    using Md by (simp add: normal_equation_w_def dimsD)
  have "mat_vec (gram X) ?w = mat_vec (mat_mul (gram X) M) (mat_vec (transpose ?A) y)"
    unfolding normal_equation_w_def
    by (rule mat_vec_assoc [symmetric, OF Md]) (use G in \<open>auto simp: dimsD\<close>)
  also have "\<dots> = mat_vec (transpose ?A) y"
    unfolding GM by (rule mat_vec_identity) (use At in \<open>simp add: dimsD\<close>)
  finally show "mat_vec (gram X) ?w = mat_vec (transpose ?A) y" .
qed

lemma fit_multiple_normal_equation:
  assumes X: "well_formed X" "as_2d X \<noteq> []" and y: "length y = length (as_2d X)"
    and inv: "linalg_inv (gram X) = Inr M" and M: "inverse_of M (gram X)"
  shows "fit_multiple linalg_inv (augmented X) y self
           = (Inr (), self\<lparr>intercept := Some (hd (normal_equation_w M X y)),
                          coefficients := Some (tl (normal_equation_w M X y))\<rparr>)"
proof -
  let ?A = "augmented X"
  let ?m = "length (as_2d X)"
  let ?n = "Suc (ncols (as_2d X))"
  let ?w = "normal_equation_w M X y"
  have m: "0 < ?m" using X(2) by simp
  have A: "dims ?m ?n ?A" by (rule dims_augmented [OF X])
  have At: "dims ?n ?m (transpose ?A)" by (rule dims_transpose [OF A m])
  have lenG: "length (gram X) = ?n"
    using At by (simp add: gram_def dimsD)
  have Md: "dims ?n ?n M"
    using M by (simp add: inverse_of_def lenG)
  have MAt: "dims ?n ?m (mat_mul M (transpose ?A))"
    using dims_mat_mul [OF At, of M] Md by (simp add: dimsD)
  have s1: "np_dot_mm (transpose ?A) ?A = Inr (gram X)"
    unfolding gram_def by (rule np_dot_mm_dims [OF At]) (use A in \<open>simp_all add: dimsD\<close>)
  have s2: "np_dot_mm M (transpose ?A) = Inr (mat_mul M (transpose ?A))"
    by (rule np_dot_mm_dims [OF Md]) (use At in \<open>simp_all add: dimsD\<close>)
  have s3: "np_dot_mv (mat_mul M (transpose ?A)) y = Inr (mat_vec (mat_mul M (transpose ?A)) y)"
    by (rule np_dot_mv_dims [OF MAt]) (use y in simp_all)
  have assoc: "mat_vec (mat_mul M (transpose ?A)) y = ?w"
    unfolding normal_equation_w_def
    by (rule mat_vec_assoc [OF At]) (use Md in \<open>auto simp: dimsD\<close>)
  have "length ?w = ?n"
    by (rule normal_equation_w_solves(1) [OF X M])
  then have w: "?w \<noteq> []" by auto
  show ?thesis
    by (simp only: fit_multiple_def s1 inv s2 s3 assoc sum.case case_list_nonempty [OF w])
qed

lemma predict_fitted:
  assumes "well_formed X" and "as_2d X \<noteq> []" and "length c = ncols (as_2d X)"
  shows "fst (predict X \<lparr>coefficients = Some c, intercept = Some b\<rparr>)
           = Inr (map (\<lambda>r. dot r c + b) (as_2d X))"
proof (cases X)
  case (Arr1 xs)
  then have xs: "xs \<noteq> []" using assms(2) by (simp add: as_2d_def)
  then have "length c = 1" using assms(3) Arr1 by (cases xs) (simp_all add: as_2d_def ncols_def)
  then obtain c0 where c: "c = [c0]" by (cases c) auto
  have "np_broadcast (*) [c0] xs = Inr (map (\<lambda>x. c0 * x) xs)"
    by (cases xs) (auto simp: np_broadcast_def)
  then show ?thesis
    by (simp add: predict_def Arr1 c as_2d_def comp_def mult.commute)
next
  case (Arr2 rows)
  then show ?thesis
    using assms(3) by (simp add: predict_def as_2d_def np_dot_mv_def)
qed

lemma mat_vec_augmented:
  "mat_vec (augmented X) (b # c) = map (\<lambda>r. dot r c + b) (as_2d X)"
  by (simp add: mat_vec_def augmented_def insert_ones_def comp_def)

lemma map2_diff_self: "map2 (-) u u = map (\<lambda>x. 0 :: real) u"
  by (simp add: zip_same_conv_map comp_def)

lemma dot_ones: "length e = length X \<Longrightarrow> dot (map (\<lambda>r. 1) X) e = sum_list e"
proof (induction X arbitrary: e)
  case Nil then show ?case by simp
next
  case (Cons r X) then show ?case by (cases e) simp_all
qed

lemma least_squares_orthogonal:
  assumes X: "well_formed X" "as_2d X \<noteq> []" and y: "length y = length (as_2d X)"
    and M: "inverse_of M (gram X)"
  shows "mat_vec (transpose (augmented X))
           (map2 (-) y (mat_vec (augmented X) (normal_equation_w M X y)))
         = map (\<lambda>j. 0) [0..<Suc (ncols (as_2d X))]"
proof -
  let ?A = "augmented X"
  let ?m = "length (as_2d X)"
  let ?n = "Suc (ncols (as_2d X))"
  let ?w = "normal_equation_w M X y"
  have m: "0 < ?m" using X(2) by simp
  have A: "dims ?m ?n ?A" by (rule dims_augmented [OF X])
  have At: "dims ?n ?m (transpose ?A)" by (rule dims_transpose [OF A m])
  note ne = normal_equation_w_solves(2) [OF X M, of y]
  have "mat_vec (transpose ?A) (map2 (-) y (mat_vec ?A ?w))
          = map2 (-) (mat_vec (transpose ?A) y) (mat_vec (transpose ?A) (mat_vec ?A ?w))"
    by (rule mat_vec_diff) (use y A in \<open>simp add: dimsD\<close>)
  also have "mat_vec (transpose ?A) (mat_vec ?A ?w) = mat_vec (gram X) ?w"
    unfolding gram_def
    by (rule mat_vec_assoc [symmetric, OF A m]) (use At in \<open>auto simp: dimsD\<close>)
  also have "\<dots> = mat_vec (transpose ?A) y" by (rule ne)
  also have "map2 (-) (mat_vec (transpose ?A) y) (mat_vec (transpose ?A) y)
               = map (\<lambda>j. 0) [0..<?n]"
    unfolding map2_diff_self using At
    by (auto simp: dimsD intro!: nth_equalityI simp del: upt_Suc)
  finally show ?thesis .
qed

lemma example_gram: "gram (Arr2 [[1], [2], [3], [4]]) = [[4, 10], [10, 30]]"
  by (simp add: gram_def augmented_def insert_ones_def as_2d_def mat_mul_def)

lemma example_hyps:
  "well_formed (Arr2 [[1], [2], [3], [4]])"
  "as_2d (Arr2 [[1], [2], [3], [4]]) \<noteq> []"
  "length [2, 4, 6, 8 :: real] = length (as_2d (Arr2 [[1], [2], [3], [4]]))"
  "inv_2x2 (gram (Arr2 [[1], [2], [3], [4]])) = Inr [[3 / 2, - 1 / 2], [- 1 / 2, 1 / 5]]"
  "inverse_of [[3 / 2, - 1 / 2], [- 1 / 2, 1 / 5]] (gram (Arr2 [[1], [2], [3], [4]]))"
  unfolding example_gram
  by (simp_all add: well_formed_def is_matrix_def ncols_def as_2d_def inv_2x2_def inverse_of_def
      dims_def mat_mul_def identity_def)

lemma example_w:
  "normal_equation_w [[3 / 2, - 1 / 2], [- 1 / 2, 1 / 5]] (Arr2 [[1], [2], [3], [4]]) [2, 4, 6, 8]
     = [0, 2]"
  by (simp add: normal_equation_w_def augmented_def insert_ones_def as_2d_def mat_vec_def)

section \<open>Least squares\<close>

text \<open>
  The design matrix of the claim is the matrix that \<open>fit\<close> builds: the reshape of lines 42
  and 43 turns a one-dimensional array into one column, and line 45 puts the ones in front.
\<close>

lemma design_matrix_augmented: "design_matrix X = augmented X"
  by (cases X) (simp_all add: design_matrix_def augmented_def insert_ones_def as_2d_def)

lemma nrows_as_2d: "nrows X = length (as_2d X)"
  by (cases X) (simp_all add: nrows_def as_2d_def)

lemma nfeatures_as_2d: "0 < nrows X \<Longrightarrow> nfeatures X = ncols (as_2d X)"
  by (cases X) (auto simp: nrows_def nfeatures_def as_2d_def ncols_def split: list.splits)

lemma example_1d:
  "well_formed (Arr1 [1, 2, 3, 4])"
  "0 < nrows (Arr1 [1, 2, 3, 4])"
  "length [2, 4, 6, 8 :: real] = nrows (Arr1 [1, 2, 3, 4])"
  "inv_2x2 (mat_mul (transpose (design_matrix (Arr1 [1, 2, 3, 4])))
              (design_matrix (Arr1 [1, 2, 3, 4])))
     = Inr [[3 / 2, - 1 / 2], [- 1 / 2, 1 / 5]]"
  "inverse_of [[3 / 2, - 1 / 2], [- 1 / 2, 1 / 5]]
     (mat_mul (transpose (design_matrix (Arr1 [1, 2, 3, 4]))) (design_matrix (Arr1 [1, 2, 3, 4])))"
  by (simp_all add: well_formed_def nrows_def design_matrix_def mat_mul_def inv_2x2_def
      inverse_of_def dims_def identity_def)

lemma example_1d_solution:
  "design_matrix (Arr1 [1, 2, 3, 4]) = [[1, 1], [1, 2], [1, 3], [1, 4]]"
  "normal_equation_solution [[3 / 2, - 1 / 2], [- 1 / 2, 1 / 5]] (Arr1 [1, 2, 3, 4]) [2, 4, 6, 8]
     = [0, 2]"
  by (simp_all add: normal_equation_solution_def design_matrix_def mat_vec_def)

text \<open>
  The one-dimensional case by evaluation of the code alone: the four samples \<open>1, 2, 3, 4\<close>
  with the targets \<open>2, 4, 6, 8\<close> give the intercept \<open>0\<close> and the coefficient \<open>2\<close>.
\<close>

lemma example_1d_fit:
  "fit inv_2x2 rand (Arr1 [1, 2, 3, 4]) [2, 4, 6, 8] ''least_squares'' lr iterations init
     = (Inr None, \<lparr>coefficients = Some [2], intercept = Some 0\<rparr>)"
  by (simp add: fit_def fit_multiple_def as_2d_def insert_ones_def np_dot_mm_def np_dot_mv_def
      ncols_def inv_2x2_def init_def)

text \<open>
  C1. For every feature array \<open>X\<close> with at least one sample and every target \<open>y\<close> of as
  many entries, if \<open>X_aug\<^sup>T X_aug\<close> is invertible, that is \<^verbatim>\<open>np.linalg.inv\<close> returns a
  matrix \<open>M\<close> that is its inverse, then \<open>fit\<close> with \<open>method = least_squares\<close> returns
  \<open>None\<close> and sets \<open>intercept = w[0]\<close> and \<open>coefficients = w[1:]\<close> for
  \<open>w = (X_aug\<^sup>T X_aug)\<^sup>-\<^sup>1 X_aug\<^sup>T y\<close>. Here \<open>X_aug\<close> is \<open>design_matrix X\<close>: the rows
  \<open>[1, x]\<close> for a one-dimensional \<open>X\<close>, which is first reshaped into a single column, and
  a one in front of every row for a two-dimensional \<open>X\<close>. The vector \<open>w\<close> has one entry for
  the bias and one for each feature, and it solves the normal equation
  \<open>(X_aug\<^sup>T X_aug) w = X_aug\<^sup>T y\<close>. (For an array without rows \<open>X_aug\<^sup>T X_aug\<close> is a zero
  matrix and has no inverse.)
\<close>

theorem fit_least_squares:
  assumes "well_formed X" and "0 < nrows X" and "length y = nrows X"
    and "linalg_inv (mat_mul (transpose (design_matrix X)) (design_matrix X)) = Inr M"
    and "inverse_of M (mat_mul (transpose (design_matrix X)) (design_matrix X))"
  shows "fit linalg_inv rand X y ''least_squares'' lr iterations self
           = (Inr None, self\<lparr>intercept := Some (hd (normal_equation_solution M X y)),
                            coefficients := Some (tl (normal_equation_solution M X y))\<rparr>)
         \<and> length (normal_equation_solution M X y) = Suc (nfeatures X)
         \<and> mat_vec (mat_mul (transpose (design_matrix X)) (design_matrix X))
              (normal_equation_solution M X y)
           = mat_vec (transpose (design_matrix X)) y"
proof -
  have X: "as_2d X \<noteq> []" and y: "length y = length (as_2d X)"
    using assms(2,3) by (simp_all add: nrows_as_2d)
  have G: "mat_mul (transpose (design_matrix X)) (design_matrix X) = gram X"
    by (simp add: gram_def design_matrix_augmented)
  have w: "normal_equation_solution M X y = normal_equation_w M X y"
    by (simp add: normal_equation_solution_def normal_equation_w_def design_matrix_augmented)
  have inv: "linalg_inv (gram X) = Inr M" and M: "inverse_of M (gram X)"
    using assms(4,5) by (simp_all add: G)
  have k: "nfeatures X = ncols (as_2d X)"
    by (rule nfeatures_as_2d) (fact assms(2))
  have G': "mat_mul (transpose (augmented X)) (augmented X) = gram X"
    by (simp add: gram_def)
  show ?thesis
    unfolding w k design_matrix_augmented G'
    using fit_multiple_normal_equation [where linalg_inv = linalg_inv, OF assms(1) X y inv M,
        of self]
      normal_equation_w_solves [OF assms(1) X M, of y]
    by (simp add: fit_least_squares_path augmented_def)
qed

theorem fit_least_squares_witness:
  "well_formed (Arr1 [1, 2, 3, 4]) \<and> 0 < nrows (Arr1 [1, 2, 3, 4])
   \<and> length [2, 4, 6, 8 :: real] = nrows (Arr1 [1, 2, 3, 4])
   \<and> design_matrix (Arr1 [1, 2, 3, 4]) = [[1, 1], [1, 2], [1, 3], [1, 4]]
   \<and> inv_2x2 (mat_mul (transpose (design_matrix (Arr1 [1, 2, 3, 4])))
                (design_matrix (Arr1 [1, 2, 3, 4])))
       = Inr [[3 / 2, - 1 / 2], [- 1 / 2, 1 / 5]]
   \<and> inverse_of [[3 / 2, - 1 / 2], [- 1 / 2, 1 / 5]]
        (mat_mul (transpose (design_matrix (Arr1 [1, 2, 3, 4])))
           (design_matrix (Arr1 [1, 2, 3, 4])))
   \<and> fit inv_2x2 (\<lambda>i. 0) (Arr1 [1, 2, 3, 4]) [2, 4, 6, 8] ''least_squares'' 0.01 1000 init
       = (Inr None, \<lparr>coefficients = Some [2], intercept = Some 0\<rparr>)
   \<and> fit inv_2x2 (\<lambda>i. 0) (Arr2 [[1], [2], [3], [4]]) [2, 4, 6, 8] ''least_squares'' 0.01 1000
        init
       = (Inr None, \<lparr>coefficients = Some [2], intercept = Some 0\<rparr>)"
proof -
  have two: "well_formed (Arr2 [[1], [2], [3], [4]])" "0 < nrows (Arr2 [[1], [2], [3], [4]])"
    "length [2, 4, 6, 8 :: real] = nrows (Arr2 [[1], [2], [3], [4]])"
    "inv_2x2 (mat_mul (transpose (design_matrix (Arr2 [[1], [2], [3], [4]])))
                (design_matrix (Arr2 [[1], [2], [3], [4]])))
       = Inr [[3 / 2, - 1 / 2], [- 1 / 2, 1 / 5]]"
    "inverse_of [[3 / 2, - 1 / 2], [- 1 / 2, 1 / 5]]
       (mat_mul (transpose (design_matrix (Arr2 [[1], [2], [3], [4]])))
          (design_matrix (Arr2 [[1], [2], [3], [4]])))"
    by (simp_all add: well_formed_def is_matrix_def ncols_def nrows_def design_matrix_def
        mat_mul_def inv_2x2_def inverse_of_def dims_def identity_def)
  have sol: "normal_equation_solution [[3 / 2, - 1 / 2], [- 1 / 2, 1 / 5]]
               (Arr2 [[1], [2], [3], [4]]) [2, 4, 6, 8] = [0, 2]"
    by (simp add: normal_equation_solution_def design_matrix_def mat_vec_def)
  have one_d: "fit inv_2x2 (\<lambda>i. 0) (Arr1 [1, 2, 3, 4]) [2, 4, 6, 8] ''least_squares'' 0.01 1000
                 init
               = (Inr None, \<lparr>coefficients = Some [2], intercept = Some 0\<rparr>)"
    using fit_least_squares [where linalg_inv = inv_2x2, OF example_1d,
        of "\<lambda>i. 0" "0.01" 1000 init]
    unfolding example_1d_solution by (simp add: init_def)
  have two_d: "fit inv_2x2 (\<lambda>i. 0) (Arr2 [[1], [2], [3], [4]]) [2, 4, 6, 8] ''least_squares''
                 0.01 1000 init
               = (Inr None, \<lparr>coefficients = Some [2], intercept = Some 0\<rparr>)"
    using fit_least_squares [where linalg_inv = inv_2x2, OF two, of "\<lambda>i. 0" "0.01" 1000 init]
    unfolding sol by (simp add: init_def)
  show ?thesis
    using one_d two_d example_1d example_1d_solution(1) by simp
qed

text \<open>
  C4. For every such \<open>(X, y)\<close> whose augmented matrix has full column rank, so that
  \<open>X_aug\<^sup>T X_aug\<close> has an inverse and \<^verbatim>\<open>np.linalg.inv\<close> returns it, fitting with
  \<open>method = least_squares\<close> and then calling \<open>predict\<close> on the same \<open>X\<close> returns
  predictions \<open>p\<close>, one for each row, whose residuals \<open>y - p\<close> sum to zero and have dot
  product zero with every feature column of \<open>X\<close>, in exact arithmetic.
\<close>

theorem least_squares_residuals:
  assumes "well_formed X" and "as_2d X \<noteq> []" and "length y = length (as_2d X)"
    and "linalg_inv (gram X) = Inr M" and "inverse_of M (gram X)"
  shows "\<exists>p. fst (predict X (snd (fit linalg_inv rand X y ''least_squares'' lr iterations self)))
               = Inr p
           \<and> length p = length y
           \<and> sum_list (map2 (-) y p) = 0
           \<and> (\<forall>j<ncols (as_2d X). dot (map (\<lambda>r. r ! j) (as_2d X)) (map2 (-) y p) = 0)"
proof -
  let ?A = "augmented X"
  let ?w = "normal_equation_w M X y"
  let ?p = "mat_vec ?A ?w"
  let ?e = "map2 (-) y ?p"
  let ?k = "ncols (as_2d X)"
  have m: "0 < length (as_2d X)" using assms(2) by simp
  have A: "dims (length (as_2d X)) (Suc ?k) ?A" by (rule dims_augmented [OF assms(1,2)])
  have len: "length ?w = Suc ?k"
    by (rule normal_equation_w_solves(1) [OF assms(1,2,5)])
  then have w: "?w = hd ?w # tl ?w" and ltl: "length (tl ?w) = ?k"
    by (cases ?w; simp)+
  have state: "snd (fit linalg_inv rand X y ''least_squares'' lr iterations self)
                 = \<lparr>coefficients = Some (tl ?w), intercept = Some (hd ?w)\<rparr>"
    using fit_multiple_normal_equation [where linalg_inv = linalg_inv, OF assms, of self]
    by (simp add: fit_least_squares_path augmented_def)
  have p: "?p = map (\<lambda>r. dot r (tl ?w) + hd ?w) (as_2d X)"
    by (subst w) (rule mat_vec_augmented)
  have pred: "fst (predict X (snd (fit linalg_inv rand X y ''least_squares'' lr iterations self)))
                = Inr ?p"
    unfolding state p by (rule predict_fitted [OF assms(1,2) ltl])
  have lp: "length ?p = length y" using assms(3) by (simp add: augmented_def insert_ones_def)
  have le: "length ?e = length (as_2d X)" using lp assms(3) by simp
  have orth: "mat_vec (transpose ?A) ?e = map (\<lambda>j. 0) [0..<Suc ?k]"
    by (rule least_squares_orthogonal [OF assms(1,2,3,5)])
  have cols: "dot (map (\<lambda>r. r ! j) ?A) ?e = 0" if "j < Suc ?k" for j
  proof -
    have "mat_vec (transpose ?A) ?e ! j = dot (map (\<lambda>r. r ! j) ?A) ?e"
      using that by (simp add: transpose_dims [OF A m] mat_vec_def del: upt_Suc)
    then show ?thesis using that by (simp add: orth del: upt_Suc)
  qed
  have "sum_list ?e = 0"
    using cols [of 0] dot_ones [OF le]
    by (simp add: augmented_def insert_ones_def comp_def)
  moreover have "dot (map (\<lambda>r. r ! j) (as_2d X)) ?e = 0" if "j < ?k" for j
    using cols [of "Suc j"] that by (simp add: augmented_def insert_ones_def comp_def)
  ultimately show ?thesis
    using pred lp by blast
qed

theorem least_squares_residuals_witness:
  "well_formed (Arr2 [[1], [2], [3], [4]]) \<and> as_2d (Arr2 [[1], [2], [3], [4]]) \<noteq> []
   \<and> length [2, 4, 6, 8 :: real] = length (as_2d (Arr2 [[1], [2], [3], [4]]))
   \<and> inv_2x2 (gram (Arr2 [[1], [2], [3], [4]])) = Inr [[3 / 2, - 1 / 2], [- 1 / 2, 1 / 5]]
   \<and> inverse_of [[3 / 2, - 1 / 2], [- 1 / 2, 1 / 5]] (gram (Arr2 [[1], [2], [3], [4]]))
   \<and> (\<exists>p. fst (predict (Arr2 [[1], [2], [3], [4]])
                 (snd (fit inv_2x2 (\<lambda>i. 0) (Arr2 [[1], [2], [3], [4]]) [2, 4, 6, 8]
                         ''least_squares'' 0.01 1000 init))) = Inr p
         \<and> length p = 4
         \<and> sum_list (map2 (-) [2, 4, 6, 8] p) = 0
         \<and> dot [1, 2, 3, 4] (map2 (-) [2, 4, 6, 8] p) = 0)"
proof -
  from least_squares_residuals [where linalg_inv = inv_2x2, OF example_hyps,
      of "\<lambda>i. 0" "0.01" 1000 init]
  obtain p where p:
    "fst (predict (Arr2 [[1], [2], [3], [4]])
            (snd (fit inv_2x2 (\<lambda>i. 0) (Arr2 [[1], [2], [3], [4]]) [2, 4, 6, 8]
                    ''least_squares'' 0.01 1000 init))) = Inr p"
    "length p = length [2, 4, 6, 8 :: real]"
    "sum_list (map2 (-) [2, 4, 6, 8] p) = 0"
    and orth: "\<forall>j<ncols (as_2d (Arr2 [[1], [2], [3], [4]])).
       dot (map (\<lambda>r. r ! j) (as_2d (Arr2 [[1], [2], [3], [4]]))) (map2 (-) [2, 4, 6, 8] p) = 0"
    by blast
  have "dot [1, 2, 3, 4] (map2 (-) [2, 4, 6, 8] p) = 0"
    using orth [rule_format, of 0] by (simp add: as_2d_def ncols_def)
  moreover have "length p = 4" using p(2) by simp
  ultimately show ?thesis using p(1,3) example_hyps by blast
qed

section \<open>Gradient descent: the epochs\<close>

text \<open>
  What the loop does on a feature array with at least one row and a target of as many entries.
  Every epoch is \<open>gd_update\<close>: predictions from the current parameters on the features
  without the bias column, \<open>error = predictions - y\<close>,
  \<open>gradient = (1/m) error\<^sup>T X_augmented\<close>, then
  \<open>intercept -= learning_rate * gradient[0]\<close> and
  \<open>coefficients -= learning_rate * gradient[1:]\<close>. There is no convergence check and no
  early stop: a call that returns has applied the update exactly \<open>iterations\<close> times to the
  random start (no time when \<open>iterations \<le> 0\<close>), and every call with
  \<open>iterations \<ge> 100\<close> returns. The only other way out of the loop is a
  \<open>ZeroDivisionError\<close>.
\<close>

lemma gd_returns_after_all_epochs:
  assumes "well_formed X" and "as_2d X \<noteq> []" and "length y = length (as_2d X)"
  shows "(100 \<le> iterations \<longrightarrow>
            (\<exists>h. fst (fit linalg_inv rand X y ''gradient_descent'' lr iterations self) = Inr h))
         \<and> ((\<exists>h. fst (fit linalg_inv rand X y ''gradient_descent'' lr iterations self) = Inr h)
              \<longrightarrow> snd (fit linalg_inv rand X y ''gradient_descent'' lr iterations self)
                    = fitted ((gd_update (as_2d X) y lr ^^ nat iterations)
                                (gd_init rand (ncols (as_2d X)))))
         \<and> ((\<exists>h. fst (fit linalg_inv rand X y ''gradient_descent'' lr iterations self) = Inr h)
              \<or> fst (fit linalg_inv rand X y ''gradient_descent'' lr iterations self)
                    = Inl ZeroDivisionError)"
proof -
  have X: "is_matrix (as_2d X)" "as_2d X \<noteq> []"
    using assms by (simp_all add: is_matrix_as_2d)
  consider "iterations \<le> 0" | "0 < iterations" "iterations < 100" | "100 \<le> iterations"
    by linarith
  then show ?thesis
  proof cases
    case 1
    then show ?thesis
      unfolding fit_gradient_descent_path
      by (simp add: fit_gradient_descent_no_epoch ncols_insert_ones_pred)
  next
    case 2
    then show ?thesis
      unfolding fit_gradient_descent_path fit_gradient_descent_fault [OF X assms(3) 2]
      by simp
  next
    case 3
    then show ?thesis
      unfolding fit_gradient_descent_path fit_gradient_descent_runs [OF X assms(3) 3]
      by simp
  qed
qed

text \<open>
  C2. By the specification every epoch computes the update above and the loop runs exactly
  \<open>iterations\<close> epochs. With fifty iterations, on the features \<open>[[1], [2]]\<close> and the
  target \<open>[1, 2]\<close>, it does not: whatever the learning rate, the random start and the
  object, the call raises \<open>ZeroDivisionError\<close> in its first epoch, at the remainder
  \<^verbatim>\<open>epoch % (iterations // 100)\<close> of line 118, and leaves the parameters after one update,
  not fifty.
\<close>

theorem gd_fifty_iterations_one_epoch:
  "fit linalg_inv rand (Arr2 [[1], [2]]) [1, 2] ''gradient_descent'' lr 50 self
     = (Inl ZeroDivisionError, fitted (gd_update [[1], [2]] [1, 2] lr (gd_init rand 1)))"
proof -
  have X: "is_matrix [[1 :: real], [2]]" "[[1 :: real], [2]] \<noteq> []"
    and y: "length [1, 2 :: real] = length [[1 :: real], [2]]"
    by (simp_all add: is_matrix_def ncols_def)
  have n: "ncols [[1 :: real], [2]] = 1" by (simp add: ncols_def)
  show ?thesis
    unfolding fit_gradient_descent_path
    using fit_gradient_descent_fault [OF X y, of 50 rand lr self]
    by (simp add: as_2d_def n)
qed

section \<open>Gradient descent: the histories\<close>

text \<open>
  What a call that returns hands back. Whatever the data, it is three lists, each of length
  \<open>iterations\<close> (of length zero when \<open>iterations\<close> is negative): every pass of the loop
  body that does not raise appends one entry to each, in the first branch of the conditional
  of line 118 as in the second. On well-formed data with at least one row and with
  \<open>iterations \<ge> 100\<close> the call does return, and entry \<open>i\<close> of the three lists is the
  mean squared error of epoch \<open>i\<close>, the coefficients after the update of epoch \<open>i\<close> (the
  value at that moment, which is what \<^verbatim>\<open>.copy()\<close> keeps) and the intercept after it.
\<close>

lemma gd_returned_histories:
  "(\<forall>r. fst (fit linalg_inv rand X y ''gradient_descent'' lr iterations self) = Inr r \<longrightarrow>
      (\<exists>mse_list coefs intercepts. r = Some (mse_list, coefs, intercepts)
         \<and> length mse_list = nat iterations \<and> length coefs = nat iterations
         \<and> length intercepts = nat iterations))
   \<and> (well_formed X \<and> as_2d X \<noteq> [] \<and> length y = length (as_2d X) \<and> 100 \<le> iterations \<longrightarrow>
      (\<exists>mse_list coefs intercepts.
         fst (fit linalg_inv rand X y ''gradient_descent'' lr iterations self)
           = Inr (Some (mse_list, coefs, intercepts))
         \<and> (\<forall>i<nat iterations.
              mse_list ! i
                = gd_mse (as_2d X) y
                    ((gd_update (as_2d X) y lr ^^ i) (gd_init rand (ncols (as_2d X))))
              \<and> coefs ! i
                = fst ((gd_update (as_2d X) y lr ^^ Suc i) (gd_init rand (ncols (as_2d X))))
              \<and> intercepts ! i
                = snd ((gd_update (as_2d X) y lr ^^ Suc i) (gd_init rand (ncols (as_2d X)))))))"
proof (intro conjI allI impI)
  fix r
  assume ret: "fst (fit linalg_inv rand X y ''gradient_descent'' lr iterations self) = Inr r"
  obtain o1 s1 where gd:
    "fit_gradient_descent rand (insert_ones (as_2d X)) y lr iterations self = (o1, s1)"
    by (cases "fit_gradient_descent rand (insert_ones (as_2d X)) y lr iterations self")
  from ret obtain h where h: "o1 = Inr h" "r = Some h"
    unfolding fit_gradient_descent_path gd by (cases o1) auto
  show "\<exists>mse_list coefs intercepts. r = Some (mse_list, coefs, intercepts)
         \<and> length mse_list = nat iterations \<and> length coefs = nat iterations
         \<and> length intercepts = nat iterations"
    using fit_gradient_descent_lengths [of rand "insert_ones (as_2d X)" y lr iterations self h]
      gd h by auto
next
  assume a: "well_formed X \<and> as_2d X \<noteq> [] \<and> length y = length (as_2d X) \<and> 100 \<le> iterations"
  then have X: "is_matrix (as_2d X)" "as_2d X \<noteq> []" and y: "length y = length (as_2d X)"
    and its: "100 \<le> iterations"
    by (simp_all add: is_matrix_as_2d)
  show "\<exists>mse_list coefs intercepts.
         fst (fit linalg_inv rand X y ''gradient_descent'' lr iterations self)
           = Inr (Some (mse_list, coefs, intercepts))
         \<and> (\<forall>i<nat iterations.
              mse_list ! i
                = gd_mse (as_2d X) y
                    ((gd_update (as_2d X) y lr ^^ i) (gd_init rand (ncols (as_2d X))))
              \<and> coefs ! i
                = fst ((gd_update (as_2d X) y lr ^^ Suc i) (gd_init rand (ncols (as_2d X))))
              \<and> intercepts ! i
                = snd ((gd_update (as_2d X) y lr ^^ Suc i) (gd_init rand (ncols (as_2d X)))))"
    unfolding fit_gradient_descent_path fit_gradient_descent_runs [OF X y its]
    by (simp del: upt_Suc funpow.simps)
qed

text \<open>
  C3. By the specification a gradient-descent fit returns three histories of length
  \<open>iterations\<close>, one entry appended in every epoch. With fifty iterations, on the features
  \<open>[[1], [2]]\<close> and the target \<open>[1, 2]\<close>, it returns nothing: the loop leaves its first
  epoch with \<open>ZeroDivisionError\<close>, raised by the condition of line 118 before either branch
  appends, so the three lists are still empty, and \<open>fit\<close> raises.
\<close>

theorem gd_fifty_iterations_no_history:
  "gd_loop (insert_ones [[1], [2]]) [1, 2] lr 50 2 (py_range 50)
       (fitted (gd_init rand 1), [], [], [])
     = (Some ZeroDivisionError, fitted (gd_update [[1], [2]] [1, 2] lr (gd_init rand 1)),
        [], [], [])
   \<and> fst (fit linalg_inv rand (Arr2 [[1], [2]]) [1, 2] ''gradient_descent'' lr 50 self)
       = Inl ZeroDivisionError"
proof -
  have X: "is_matrix [[1 :: real], [2]]" "[[1 :: real], [2]] \<noteq> []"
    and y: "length [1, 2 :: real] = length [[1 :: real], [2]]"
    by (simp_all add: is_matrix_def ncols_def)
  have n: "ncols [[1 :: real], [2]] = 1" by (simp add: ncols_def)
  have len: "length (fst (gd_init rand 1)) = ncols [[1 :: real], [2]]"
    by (simp add: gd_init_def n)
  have z: "(50 :: int) div 10 = 0 \<or> (50 :: int) div 100 = 0" by simp
  have r: "py_range 50 = 0 # map int [1..<nat 50]"
    by (rule py_range_Cons) simp
  have loop: "gd_loop (insert_ones [[1], [2]]) [1, 2] lr 50 2 (py_range 50)
                (fitted (gd_init rand 1), [], [], [])
              = (Some ZeroDivisionError,
                 fitted (gd_update [[1], [2]] [1, 2] lr (gd_init rand 1)), [], [], [])"
  proof -
    have "gd_loop (insert_ones [[1], [2]]) [1, 2] lr 50 (length [1, 2 :: real])
            (0 # map int [1..<nat 50]) (fitted (gd_init rand 1), [], [], [])
          = (Some ZeroDivisionError,
             fitted (gd_update [[1], [2]] [1, 2] lr (gd_init rand 1)), [], [], [])"
      by (rule gd_loop_fault [OF X y len z])
    moreover have "length [1, 2 :: real] = 2" by simp
    ultimately show ?thesis unfolding r by (simp only:)
  qed
  have "fst (fit linalg_inv rand (Arr2 [[1], [2]]) [1, 2] ''gradient_descent'' lr 50 self)
          = Inl ZeroDivisionError"
    unfolding fit_gradient_descent_path
    using fit_gradient_descent_fault [OF X y, of 50 rand lr self]
    by (simp add: as_2d_def)
  with loop show ?thesis by simp
qed

section \<open>Unrecognised method\<close>

text \<open>
  C5. For every input \<open>(X, y)\<close> and every method string other than \<open>least_squares\<close> and
  \<open>gradient_descent\<close>, \<open>fit\<close> raises the \<open>ValueError\<close> naming the method, whatever the
  data, and leaves the object, so its intercept and its coefficients, as it was.
\<close>

theorem fit_unknown_method:
  assumes "method \<noteq> ''least_squares''" and "method \<noteq> ''gradient_descent''"
  shows "fit linalg_inv rand X y method learning_rate iterations self
           = (Inl (method_not_available method), self)"
  using assms by (simp add: fit_def)

theorem fit_unknown_method_witness:
  "fit inv_2x2 (\<lambda>i. 0) (Arr2 [[1], [2]]) [1, 2] ''ridge'' 0.01 1000 init
     = (Inl (method_not_available ''ridge''), init)"
  using fit_unknown_method [of "''ridge''" inv_2x2 "\<lambda>i. 0" "Arr2 [[1], [2]]"
      "[1, 2]" "0.01" 1000 init]
  by simp

section \<open>Prediction before fitting\<close>

text \<open>
  C6. For every input \<open>X\<close>, \<open>predict\<close> on an object whose coefficients or whose intercept
  is unset, as both are before any fit, raises the \<open>ValueError\<close> "Model is not yet fitted";
  and whatever \<open>predict\<close> returns or raises, it leaves the object as it was.
\<close>

theorem predict_not_fitted:
  "(coefficients self = None \<or> intercept self = None
      \<longrightarrow> fst (predict X self) = Inl not_fitted)
   \<and> fst (predict X init) = Inl not_fitted
   \<and> snd (predict X self) = self"
  by (auto simp: predict_def init_def split: option.splits ndarray.splits sum.splits)

theorem predict_not_fitted_witness:
  "(coefficients \<lparr>coefficients = Some [2], intercept = None\<rparr> = None
      \<or> intercept \<lparr>coefficients = Some [2], intercept = None\<rparr> = None)
   \<and> fst (predict (Arr1 [5]) \<lparr>coefficients = Some [2], intercept = None\<rparr>) = Inl not_fitted"
  using predict_not_fitted [of "\<lparr>coefficients = Some [2], intercept = None\<rparr>" "Arr1 [5]"]
  by simp
section \<open>Gradient descent: too few iterations\<close>

text \<open>
  C7. For every gradient-descent call with \<open>iterations\<close> below ten, \<open>fit\<close> raises
  \<open>ZeroDivisionError\<close>: the divisor \<^verbatim>\<open>iterations // 10\<close> of the remainder in line 114
  is zero. The calls are those of the specification of \<open>fit\<close>: \<open>iterations\<close> is a
  positive integer and the target has as many entries as the feature array has rows.
\<close>

theorem gd_cadence_fault:
  assumes "well_formed X" and "length y = length (as_2d X)"
    and "0 < iterations" and "iterations < 10"
  shows "fst (fit linalg_inv rand X y ''gradient_descent'' lr iterations self)
           = Inl ZeroDivisionError
         \<and> iterations div 10 = 0"
proof (cases "as_2d X = []")
  case True
  then have "y = []" using assms(2) by simp
  then show ?thesis
    unfolding fit_gradient_descent_path True
    using fit_gradient_descent_empty [OF assms(3), of rand lr self] assms(3,4)
    by (cases "fit_gradient_descent rand (insert_ones []) [] lr iterations self") simp
next
  case False
  have X: "is_matrix (as_2d X)" using assms(1) by (rule is_matrix_as_2d)
  have lt: "iterations < 100" using assms(4) by simp
  show ?thesis
    unfolding fit_gradient_descent_path fit_gradient_descent_fault [OF X False assms(2,3) lt]
    using assms(3,4) by simp
qed

theorem gd_cadence_fault_witness:
  "well_formed (Arr1 [1, 2, 3]) \<and> length [2, 4, 6 :: real] = length (as_2d (Arr1 [1, 2, 3]))
   \<and> (0 :: int) < 9 \<and> (9 :: int) < 10
   \<and> fst (fit inv_2x2 (\<lambda>i. 1 / 2) (Arr1 [1, 2, 3]) [2, 4, 6]
            ''gradient_descent'' 0.01 9 init) = Inl ZeroDivisionError"
proof -
  have hyp: "well_formed (Arr1 [1, 2, 3])"
    "length [2, 4, 6 :: real] = length (as_2d (Arr1 [1, 2, 3]))" "(0 :: int) < 9" "(9 :: int) < 10"
    by (simp_all add: well_formed_def as_2d_def)
  show ?thesis
    using gd_cadence_fault [OF hyp, of inv_2x2 "\<lambda>i. 1 / 2" "0.01" init] hyp
    by simp
qed

text \<open>
  C10. For every gradient-descent call on a well-formed feature array and a target of as many
  entries, with \<open>10 \<le> iterations < 100\<close>, the divisor of line 114 is not zero but the
  divisor \<^verbatim>\<open>iterations // 100\<close> of line 118 is, and the remainder is taken before the test
  \<^verbatim>\<open>iterations > 1000\<close> is looked at: \<open>fit\<close> raises \<open>ZeroDivisionError\<close> in the first
  epoch, after that epoch's update of the parameters when the data has a row. So the guard
  \<open>iterations \<ge> 10\<close> is not enough: among the calls that pass it, one that returns has
  \<open>iterations \<ge> 100\<close>, and on data with at least one row every such call returns.
\<close>

theorem gd_recording_fault:
  assumes "well_formed X" and "length y = length (as_2d X)" and "10 \<le> iterations"
  shows "(iterations < 100 \<longrightarrow>
            iterations div 10 \<noteq> 0 \<and> iterations div 100 = 0
            \<and> fst (fit linalg_inv rand X y ''gradient_descent'' lr iterations self)
                = Inl ZeroDivisionError
            \<and> (as_2d X \<noteq> [] \<longrightarrow>
                 snd (fit linalg_inv rand X y ''gradient_descent'' lr iterations self)
                   = fitted (gd_update (as_2d X) y lr (gd_init rand (ncols (as_2d X))))))
         \<and> ((\<exists>h. fst (fit linalg_inv rand X y ''gradient_descent'' lr iterations self) = Inr h)
              \<longrightarrow> 100 \<le> iterations)
         \<and> (100 \<le> iterations \<and> as_2d X \<noteq> []
              \<longrightarrow> (\<exists>h. fst (fit linalg_inv rand X y ''gradient_descent'' lr iterations self)
                         = Inr h))"
proof -
  have pos: "0 < iterations" using assms(3) by simp
  have M: "is_matrix (as_2d X)" using assms(1) by (rule is_matrix_as_2d)
  have small: "fst (fit linalg_inv rand X y ''gradient_descent'' lr iterations self)
                 = Inl ZeroDivisionError
               \<and> (as_2d X \<noteq> [] \<longrightarrow>
                    snd (fit linalg_inv rand X y ''gradient_descent'' lr iterations self)
                      = fitted (gd_update (as_2d X) y lr (gd_init rand (ncols (as_2d X)))))"
    if lt: "iterations < 100"
  proof (cases "as_2d X = []")
    case True
    then have "y = []" using assms(2) by simp
    then show ?thesis
      unfolding fit_gradient_descent_path True
      using fit_gradient_descent_empty [OF pos, of rand lr self]
      by (cases "fit_gradient_descent rand (insert_ones []) [] lr iterations self") simp
  next
    case False
    show ?thesis
      unfolding fit_gradient_descent_path fit_gradient_descent_fault [OF M False assms(2) pos lt]
      by simp
  qed
  have div: "iterations < 100 \<Longrightarrow> iterations div 10 \<noteq> 0 \<and> iterations div 100 = 0"
    using assms(3) by simp
  have runs: "\<exists>h. fst (fit linalg_inv rand X y ''gradient_descent'' lr iterations self) = Inr h"
    if "100 \<le> iterations" "as_2d X \<noteq> []"
    unfolding fit_gradient_descent_path fit_gradient_descent_runs [OF M that(2) assms(2) that(1)]
    by simp
  have need: "100 \<le> iterations"
    if "\<exists>h. fst (fit linalg_inv rand X y ''gradient_descent'' lr iterations self) = Inr h"
  proof (rule ccontr)
    assume "\<not> 100 \<le> iterations"
    then have "iterations < 100" by simp
    from small [OF this] that show False by auto
  qed
  show ?thesis using small div runs need by blast
qed

theorem gd_recording_fault_witness:
  "well_formed (Arr2 [[1], [2]]) \<and> length [1, 2 :: real] = length (as_2d (Arr2 [[1], [2]]))
   \<and> (10 :: int) \<le> 50 \<and> (50 :: int) < 100 \<and> as_2d (Arr2 [[1], [2]]) \<noteq> []
   \<and> fst (fit inv_2x2 (\<lambda>i. 0) (Arr2 [[1], [2]]) [1, 2] ''gradient_descent'' (1 / 100) 50 init)
       = Inl ZeroDivisionError
   \<and> snd (fit inv_2x2 (\<lambda>i. 0) (Arr2 [[1], [2]]) [1, 2] ''gradient_descent'' (1 / 100) 50 init)
       = \<lparr>coefficients = Some [1 / 40], intercept = Some (3 / 200)\<rparr>"
proof -
  have hyp: "well_formed (Arr2 [[1], [2]])"
    "length [1, 2 :: real] = length (as_2d (Arr2 [[1], [2]]))" "(10 :: int) \<le> 50"
    by (simp_all add: well_formed_def is_matrix_def ncols_def as_2d_def)
  have eq: "as_2d (Arr2 [[1], [2]]) = [[1], [2]]"
    "gd_init (\<lambda>i. 0) (ncols [[1 :: real], [2]]) = ([0], 0)"
    by (simp_all add: as_2d_def ncols_def gd_init_def)
  have upd: "fitted (gd_update [[1], [2]] [1, 2] (1 / 100) ([0], 0))
               = \<lparr>coefficients = Some [1 / 40], intercept = Some (3 / 200)\<rparr>"
    by (simp add: fitted_def gd_update_def gd_gradient_def gd_error_def gd_predictions_def
        insert_ones_def ncols_def upt_conv_Cons)
  show ?thesis
    using gd_recording_fault [OF hyp, of inv_2x2 "\<lambda>i. 0" "1 / 100" init] hyp
    unfolding eq upd by simp
qed

section \<open>The object after a call of fit\<close>

text \<open>
  C8, as amended. A call of \<open>fit\<close> that fails with any method other than
  \<open>gradient_descent\<close> (an unrecognised method, or any failure of the least-squares path)
  leaves the object as it was. Every call that returns leaves both the coefficients and the
  intercept set. A gradient-descent call assigns both at its start and updates them in place,
  so after it, returned or failed, both are set; a failure does not bring the earlier values
  back. The counterexample shows it on a call with five iterations, which raises after the
  first update, and on a call whose target is shorter than the features, which raises at the
  first subtraction, after the random start has been assigned.
\<close>

theorem fit_failure_state:
  "(\<forall>e. fst (fit linalg_inv rand X y method lr iterations self) = Inl e
          \<and> method \<noteq> ''gradient_descent''
        \<longrightarrow> snd (fit linalg_inv rand X y method lr iterations self) = self)
   \<and> (\<forall>h. fst (fit linalg_inv rand X y method lr iterations self) = Inr h
        \<longrightarrow> coefficients (snd (fit linalg_inv rand X y method lr iterations self)) \<noteq> None
          \<and> intercept (snd (fit linalg_inv rand X y method lr iterations self)) \<noteq> None)
   \<and> (method = ''gradient_descent''
        \<longrightarrow> coefficients (snd (fit linalg_inv rand X y method lr iterations self)) \<noteq> None
          \<and> intercept (snd (fit linalg_inv rand X y method lr iterations self)) \<noteq> None)"
proof -
  consider "method = ''gradient_descent''" | "method = ''least_squares''"
    | "method \<noteq> ''gradient_descent''" "method \<noteq> ''least_squares''"
    by blast
  then show ?thesis
  proof cases
    case 1
    obtain r s where gd:
      "fit_gradient_descent rand (insert_ones (as_2d X)) y lr iterations self = (r, s)"
      by (cases "fit_gradient_descent rand (insert_ones (as_2d X)) y lr iterations self")
    have "coefficients s \<noteq> None \<and> intercept s \<noteq> None"
      using fit_gradient_descent_sets_both [of rand "insert_ones (as_2d X)" y lr iterations self]
      by (simp add: gd)
    then show ?thesis
      unfolding 1 fit_gradient_descent_path gd by (cases r) simp_all
  next
    case 2
    obtain r s where ls: "fit_multiple linalg_inv (insert_ones (as_2d X)) y self = (r, s)"
      by (cases "fit_multiple linalg_inv (insert_ones (as_2d X)) y self")
    show ?thesis
      unfolding 2 fit_least_squares_path ls
      using fit_multiple_outcome [of linalg_inv "insert_ones (as_2d X)" y self] ls
      by (cases r) simp_all
  next
    case 3
    then show ?thesis by (simp add: fit_def)
  qed
qed

theorem fit_failure_state_witness:
  "fst (fit inv_2x2 (\<lambda>i. 0) (Arr2 [[1], [1]]) [1, 2] ''least_squares'' (1 / 100)
          1000 \<lparr>coefficients = Some [2], intercept = Some 0\<rparr>) = Inl LinAlgError
   \<and> ''least_squares'' \<noteq> ''gradient_descent''
   \<and> snd (fit inv_2x2 (\<lambda>i. 0) (Arr2 [[1], [1]]) [1, 2] ''least_squares'' (1 / 100)
          1000 \<lparr>coefficients = Some [2], intercept = Some 0\<rparr>)
       = \<lparr>coefficients = Some [2], intercept = Some 0\<rparr>
   \<and> coefficients (snd (fit inv_2x2 (\<lambda>i. 0) (Arr2 [[1], [2]]) [1, 2]
          ''gradient_descent'' (1 / 100) 5 init)) \<noteq> None
   \<and> intercept (snd (fit inv_2x2 (\<lambda>i. 0) (Arr2 [[1], [2]]) [1, 2]
          ''gradient_descent'' (1 / 100) 5 init)) \<noteq> None"
proof -
  have fails: "fst (fit inv_2x2 (\<lambda>i. 0) (Arr2 [[1], [1]]) [1, 2] ''least_squares''
          (1 / 100) 1000 \<lparr>coefficients = Some [2], intercept = Some 0\<rparr>) = Inl LinAlgError"
    by (simp add: fit_def fit_multiple_def np_dot_mm_def as_2d_def insert_ones_def ncols_def
        inv_2x2_def)
  show ?thesis
    using fails
      fit_failure_state [of inv_2x2 "\<lambda>i. 0" "Arr2 [[1], [1]]" "[1, 2]"
        "''least_squares''" "1 / 100" 1000 "\<lparr>coefficients = Some [2], intercept = Some 0\<rparr>"]
      fit_failure_state [of inv_2x2 "\<lambda>i. 0" "Arr2 [[1], [2]]" "[1, 2]"
        "''gradient_descent''" "1 / 100" 5 init]
    by simp
qed

theorem fit_failure_unchanged_counterexample:
  "fst (fit inv_2x2 (\<lambda>i. 0) (Arr2 [[1], [2]]) [1, 2] ''gradient_descent'' (1 / 100) 5
          \<lparr>coefficients = Some [2], intercept = Some 0\<rparr>) = Inl ZeroDivisionError
   \<and> snd (fit inv_2x2 (\<lambda>i. 0) (Arr2 [[1], [2]]) [1, 2] ''gradient_descent'' (1 / 100) 5
          \<lparr>coefficients = Some [2], intercept = Some 0\<rparr>)
       = \<lparr>coefficients = Some [1 / 40], intercept = Some (3 / 200)\<rparr>
   \<and> \<lparr>coefficients = Some [1 / 40], intercept = Some (3 / 200)\<rparr>
       \<noteq> \<lparr>coefficients = Some [2 :: real], intercept = Some (0 :: real)\<rparr>
   \<and> fit inv_2x2 (\<lambda>i. 0) (Arr2 [[1], [2], [3]]) [1, 2] ''gradient_descent'' (1 / 100) 100
          \<lparr>coefficients = Some [2], intercept = Some 0\<rparr>
       = (Inl not_broadcastable, \<lparr>coefficients = Some [0], intercept = Some 0\<rparr>)"
  by (simp add: fit_def fit_gradient_descent_def py_range_def as_2d_def insert_ones_def ncols_def
      predict_def drop_first_column_def np_dot_mv_def np_broadcast_def np_dot_vm_def np_isub_def
      dot_def upt_conv_Cons)

section \<open>One-hot encoding: the shape of the result\<close>

text \<open>
  C9. For every rectangular array \<open>X\<close> with at least one row, every list of distinct valid
  column indices and either value of \<open>drop_first\<close>, \<open>one_hot_encode\<close> returns an array with
  the rows of \<open>X\<close> in their order: it has as many rows as \<open>X\<close>, and row \<open>i\<close> is the
  indicator blocks of row \<open>i\<close> of \<open>X\<close>, for the categorical columns in increasing order,
  followed by the other entries of that row in their order. Every row has
  (columns of \<open>X\<close> - number of categorical columns) + the sum over the categorical columns of
  (number of distinct values - (1 if \<open>drop_first\<close> else 0)) entries.
\<close>

theorem one_hot_encode_shape:
  assumes "is_matrix X" and "X \<noteq> []" and "distinct categorical_indices"
    and "\<forall>c\<in>set categorical_indices. 0 \<le> c \<and> c < int (ncols X)"
  shows "\<exists>Y. one_hot_encode cast X categorical_indices drop_first = Inr Y
           \<and> length Y = length X
           \<and> (\<forall>i<length X.
                length (Y ! i)
                  = (ncols X - length categorical_indices)
                    + (\<Sum>c\<leftarrow>categorical_indices.
                         card (set (map (\<lambda>r. r ! nat c) X)) - (if drop_first then 1 else 0))
                \<and> Y ! i
                  = concat (map (indicators cast X drop_first (X ! i)) (sort categorical_indices))
                    @ remaining (nat ` set categorical_indices) (X ! i))"
proof -
  let ?row = "\<lambda>r. concat (map (indicators cast X drop_first r) (sort categorical_indices))
                  @ remaining (nat ` set categorical_indices) r"
  have enc: "one_hot_encode cast X categorical_indices drop_first = Inr (map ?row X)"
    by (rule one_hot_encode_rows) (fact assms)+
  have len: "length (?row (X ! i))
               = (ncols X - length categorical_indices)
                 + (\<Sum>c\<leftarrow>categorical_indices.
                      card (set (map (\<lambda>r. r ! nat c) X)) - (if drop_first then 1 else 0))"
    if "i < length X" for i
  proof -
    have "length (X ! i) = ncols X"
      using assms(1) that by (simp add: is_matrix_def list_all_iff)
    then have rem: "length (remaining (nat ` set categorical_indices) (X ! i))
                 = ncols X - length categorical_indices"
      using length_remaining [OF assms(3), of "X ! i"] assms(4) by simp
    have "length (concat (map (indicators cast X drop_first (X ! i)) (sort categorical_indices)))
            = (\<Sum>c\<leftarrow>sort categorical_indices.
                 card (set (map (\<lambda>r. r ! nat c) X)) - (if drop_first then 1 else 0))"
      by (simp add: length_concat comp_def length_indicators)
    also have "\<dots> = (\<Sum>c\<leftarrow>categorical_indices.
                 card (set (map (\<lambda>r. r ! nat c) X)) - (if drop_first then 1 else 0))"
      by (rule sum_list_sort) (fact assms(3))
    finally show ?thesis using rem by simp
  qed
  show ?thesis
    unfolding enc using len by (intro exI [of _ "map ?row X"]) simp
qed

theorem one_hot_encode_shape_witness:
  "is_matrix [[5, 1, 7], [6, 2, 7], [5, 3, 8 :: int]] \<and> [[5, 1, 7], [6, 2, 7], [5, 3, 8 :: int]] \<noteq> []
   \<and> distinct [2, 0 :: int]
   \<and> (0 :: int) \<le> 2 \<and> 2 < int (ncols [[5, 1, 7], [6, 2, 7], [5, 3, 8 :: int]])
   \<and> (0 :: int) \<le> 0 \<and> 0 < int (ncols [[5, 1, 7], [6, 2, 7], [5, 3, 8 :: int]])
   \<and> (\<exists>Y. one_hot_encode (\<lambda>i. i) [[5, 1, 7], [6, 2, 7], [5, 3, 8]] [2, 0] True = Inr Y
         \<and> length Y = 3 \<and> length (Y ! 0) = 3 \<and> length (Y ! 1) = 3 \<and> length (Y ! 2) = 3
         \<and> Y ! 1 = [1, 0, 2])"
proof -
  have hyp: "is_matrix [[5, 1, 7], [6, 2, 7], [5, 3, 8 :: int]]"
    "[[5, 1, 7], [6, 2, 7], [5, 3, 8 :: int]] \<noteq> []" "distinct [2, 0 :: int]"
    "\<forall>c\<in>set [2, 0 :: int]. 0 \<le> c \<and> c < int (ncols [[5, 1, 7], [6, 2, 7], [5, 3, 8 :: int]])"
    by (simp_all add: is_matrix_def ncols_def)
  have count: "(ncols [[5, 1, 7], [6, 2, 7], [5, 3, 8 :: int]] - length [2, 0 :: int])
         + (\<Sum>c\<leftarrow>[2, 0 :: int].
              card (set (map (\<lambda>r. r ! nat c) [[5, 1, 7], [6, 2, 7], [5, 3, 8 :: int]]))
                - (if True then 1 else 0)) = 3"
    by (simp add: ncols_def card_set del: set_simps set_map) simp
  have row: "concat (map (indicators (\<lambda>i. i) [[5, 1, 7], [6, 2, 7], [5, 3, 8 :: int]] True
                            ([[5, 1, 7], [6, 2, 7], [5, 3, 8]] ! 1)) (sort [2, 0]))
               @ remaining (nat ` set [2, 0]) ([[5, 1, 7], [6, 2, 7], [5, 3, 8]] ! 1)
             = [1, 0, 2]"
    by (simp add: indicators_def np_unique_def remaining_def upt_conv_Cons)
  from one_hot_encode_shape [OF hyp, of "\<lambda>i. i" True, unfolded count]
  obtain Y where enc: "one_hot_encode (\<lambda>i. i) [[5, 1, 7], [6, 2, 7], [5, 3, 8]] [2, 0] True = Inr Y"
    and rows: "length Y = length [[5, 1, 7], [6, 2, 7], [5, 3, 8 :: int]]"
    and cols: "\<forall>i<length [[5, 1, 7], [6, 2, 7], [5, 3, 8 :: int]]. length (Y ! i) = 3"
    and vals: "\<forall>i<length [[5, 1, 7], [6, 2, 7], [5, 3, 8 :: int]].
                 Y ! i = concat (map (indicators (\<lambda>i. i) [[5, 1, 7], [6, 2, 7], [5, 3, 8 :: int]] True
                                        ([[5, 1, 7], [6, 2, 7], [5, 3, 8]] ! i)) (sort [2, 0]))
                           @ remaining (nat ` set [2, 0]) ([[5, 1, 7], [6, 2, 7], [5, 3, 8]] ! i)"
    by blast
  have "length (Y ! 0) = 3" "length (Y ! 1) = 3" "length (Y ! 2) = 3"
    using cols by simp_all
  moreover have "Y ! 1 = [1, 0, 2]"
    using vals [rule_format, of 1] unfolding row by simp
  moreover have "length Y = 3" using rows by simp
  ultimately show ?thesis using enc hyp by simp
qed

end
